theory Spec2Isabelle
  imports Main
begin

section \<open>Python values\<close>

text \<open>
  The wishlist is whatever \<^verbatim>\<open>json.loads\<close> returned, so every value the program handles is
  a JSON value. A dict is an association list in insertion order; a dict built by Python
  never repeats a key. A string is a list of characters with code points below 256 (a
  \<open>char\<close> is one code point); characters above that are outside the model, and so are JSON
  numbers with a fraction or an exponent.
\<close>

datatype json =
    JNull
  | JBool bool
  | JInt int
  | JStr string
  | JList "json list"
  | JObj "(string \<times> json) list"

datatype py_error =
    HTTPError nat
  | URLError
  | JSONDecodeError
  | FileNotFoundError
  | KeyError string
  | IndexError
  | AttributeError
  | TypeError
  | ValueError
  | SystemExit nat

type_synonym 'a result = "py_error + 'a"

type_synonym dict = "(string \<times> json) list"

definition bind_result :: "'a result \<Rightarrow> ('a \<Rightarrow> 'b result) \<Rightarrow> 'b result" where
  "bind_result r f = (case r of Inl e \<Rightarrow> Inl e | Inr x \<Rightarrow> f x)"

fun map_result :: "('a \<Rightarrow> 'b result) \<Rightarrow> 'a list \<Rightarrow> 'b list result" where
  "map_result f [] = Inr []"
| "map_result f (x # xs) =
     (case f x of
        Inl e \<Rightarrow> Inl e
      | Inr y \<Rightarrow> (case map_result f xs of Inl e \<Rightarrow> Inl e | Inr ys \<Rightarrow> Inr (y # ys)))"

text \<open>Truth value of a Python object in a condition.\<close>

fun truthy :: "json \<Rightarrow> bool" where
  "truthy JNull = False"
| "truthy (JBool b) = b"
| "truthy (JInt n) = (n \<noteq> 0)"
| "truthy (JStr s) = (s \<noteq> [])"
| "truthy (JList xs) = (xs \<noteq> [])"
| "truthy (JObj kvs) = (kvs \<noteq> [])"

text \<open>
  An argparse attribute that is \<^verbatim>\<open>None\<close> when the flag is absent, and a string or a list
  (\<^verbatim>\<open>action="append"\<close>) otherwise, tested with \<^verbatim>\<open>if args.x:\<close>.
\<close>

definition given :: "'a list option \<Rightarrow> bool" where
  "given v = (case v of None \<Rightarrow> False | Some xs \<Rightarrow> xs \<noteq> [])"

text \<open>\<^verbatim>\<open>d[k] = v\<close>: an existing key keeps its place, a new key goes to the end.\<close>

fun dict_set :: "'k \<Rightarrow> 'v \<Rightarrow> ('k \<times> 'v) list \<Rightarrow> ('k \<times> 'v) list" where
  "dict_set k v [] = [(k, v)]"
| "dict_set k v ((k', v') # d) =
     (if k' = k then (k, v) # d else (k', v') # dict_set k v d)"

text \<open>\<^verbatim>\<open>fields.get(k, default)\<close>; only a dict has the method.\<close>

definition dict_get :: "json \<Rightarrow> string \<Rightarrow> json \<Rightarrow> json result" where
  "dict_get fields k dflt =
     (case fields of
        JObj kvs \<Rightarrow> Inr (case map_of kvs k of None \<Rightarrow> dflt | Some v \<Rightarrow> v)
      | _ \<Rightarrow> Inl AttributeError)"

text \<open>\<^verbatim>\<open>fields[k]\<close> with a string key.\<close>

definition subscript :: "json \<Rightarrow> string \<Rightarrow> json result" where
  "subscript fields k =
     (case fields of
        JObj kvs \<Rightarrow> (case map_of kvs k of None \<Rightarrow> Inl (KeyError k) | Some v \<Rightarrow> Inr v)
      | _ \<Rightarrow> Inl TypeError)"

text \<open>\<^verbatim>\<open>for x in v\<close>: a list gives its elements, a string its characters, a dict its keys.\<close>

definition iter_items :: "json \<Rightarrow> json list result" where
  "iter_items v =
     (case v of
        JList xs \<Rightarrow> Inr xs
      | JStr s \<Rightarrow> Inr (map (\<lambda>c. JStr [c]) s)
      | JObj kvs \<Rightarrow> Inr (map (\<lambda>kv. JStr (fst kv)) kvs)
      | _ \<Rightarrow> Inl TypeError)"

fun starts_with :: "string \<Rightarrow> string \<Rightarrow> bool" where
  "starts_with s [] = True"
| "starts_with [] (p # ps) = False"
| "starts_with (c # cs) (p # ps) = (c = p \<and> starts_with cs ps)"

fun contains_str :: "string \<Rightarrow> string \<Rightarrow> bool" where
  "contains_str [] p = (p = [])"
| "contains_str (c # cs) p = (starts_with (c # cs) p \<or> contains_str cs p)"

text \<open>\<^verbatim>\<open>k in v\<close> for a string \<open>k\<close>.\<close>

definition py_in :: "string \<Rightarrow> json \<Rightarrow> bool result" where
  "py_in k v =
     (case v of
        JObj kvs \<Rightarrow> Inr (k \<in> fst ` set kvs)
      | JList xs \<Rightarrow> Inr (JStr k \<in> set xs)
      | JStr s \<Rightarrow> Inr (contains_str s k)
      | _ \<Rightarrow> Inl TypeError)"

section \<open>Characters and integers\<close>

text \<open>
  The character tests of \<^verbatim>\<open>str\<close> on the code points below 256. Letters
  (\<^verbatim>\<open>isalpha\<close>) are A-Z, a-z, U+00AA, U+00B5, U+00BA and U+00C0 to U+00FF without the
  signs U+00D7 and U+00F7. Decimal digits are 0-9 only; \<^verbatim>\<open>isdigit\<close> also holds for the
  superscripts U+00B2, U+00B3 and U+00B9. \<^verbatim>\<open>lower\<close> moves A-Z and the capitals U+00C0 to
  U+00DE (without U+00D7) up by 32 and leaves every other character alone.
\<close>

definition isalpha :: "char \<Rightarrow> bool" where
  "isalpha c =
     (let n = (of_char c :: nat) in
      (65 \<le> n \<and> n \<le> 90) \<or> (97 \<le> n \<and> n \<le> 122) \<or> n = 170 \<or> n = 181 \<or> n = 186 \<or>
      (192 \<le> n \<and> n \<noteq> 215 \<and> n \<noteq> 247))"

definition isdecimal :: "char \<Rightarrow> bool" where
  "isdecimal c = (let n = (of_char c :: nat) in 48 \<le> n \<and> n \<le> 57)"

definition isdigit :: "char \<Rightarrow> bool" where
  "isdigit c = (let n = (of_char c :: nat) in isdecimal c \<or> n = 178 \<or> n = 179 \<or> n = 185)"

definition lower :: "char \<Rightarrow> char" where
  "lower c =
     (let n = (of_char c :: nat) in
      if (65 \<le> n \<and> n \<le> 90) \<or> (192 \<le> n \<and> n \<le> 214) \<or> (216 \<le> n \<and> n \<le> 222)
      then char_of (n + 32) else c)"

text \<open>
  The white space that \<^verbatim>\<open>int()\<close> drops around a number: tab to carriage return and the
  space, and of the characters above 127 the two that are white space, U+0085 and U+00A0.
  (U+001C to U+001F are white space for \<^verbatim>\<open>str.isspace\<close>, but \<^verbatim>\<open>int()\<close> does not drop them.)
\<close>

definition is_int_space :: "char \<Rightarrow> bool" where
  "is_int_space c =
     (let n = (of_char c :: nat) in (9 \<le> n \<and> n \<le> 13) \<or> n = 32 \<or> n = 133 \<or> n = 160)"

text \<open>\<^verbatim>\<open>s.isalpha()\<close>, \<^verbatim>\<open>s.isdigit()\<close>, \<^verbatim>\<open>s.lower()\<close> on a whole string.\<close>

definition str_isalpha :: "string \<Rightarrow> bool" where
  "str_isalpha s = (s \<noteq> [] \<and> list_all isalpha s)"

definition str_isdigit :: "string \<Rightarrow> bool" where
  "str_isdigit s = (s \<noteq> [] \<and> list_all isdigit s)"

definition str_lower :: "string \<Rightarrow> string" where
  "str_lower s = map lower s"

definition digit_val :: "char \<Rightarrow> nat" where
  "digit_val c = of_char c - 48"

text \<open>\<^verbatim>\<open>str(n)\<close> and \<^verbatim>\<open>"{}".format(n)\<close> for an integer.\<close>

fun str_nat :: "nat \<Rightarrow> string" where
  "str_nat n =
     (if n < 10 then [''0123456789'' ! n]
      else str_nat (n div 10) @ [''0123456789'' ! (n mod 10)])"

declare str_nat.simps [simp del]

definition str_int :: "int \<Rightarrow> string" where
  "str_int i = (if i < 0 then CHR ''-'' # str_nat (nat (- i)) else str_nat (nat i))"

text \<open>
  \<^verbatim>\<open>int(s)\<close> for a string: surrounding white space is dropped, one sign is allowed, and
  the decimal digits may be separated by single underscores. A string with more decimal
  digits than \<^verbatim>\<open>sys.int_max_str_digits\<close>, 4300 unless the interpreter is told otherwise,
  is refused. \<open>None\<close> stands for \<^verbatim>\<open>ValueError\<close>.
\<close>

fun parse_digits :: "int \<Rightarrow> string \<Rightarrow> int option" where
  "parse_digits acc [] = Some acc"
| "parse_digits acc [c] = (if isdecimal c then Some (acc * 10 + int (digit_val c)) else None)"
| "parse_digits acc (c # d # ds) =
     (if isdecimal c then parse_digits (acc * 10 + int (digit_val c)) (d # ds)
      else if c = CHR ''_'' \<and> isdecimal d then parse_digits (acc * 10 + int (digit_val d)) ds
      else None)"

definition parse_unsigned :: "string \<Rightarrow> int option" where
  "parse_unsigned s =
     (case s of
        [] \<Rightarrow> None
      | c # cs \<Rightarrow> if isdecimal c then parse_digits (int (digit_val c)) cs else None)"

definition strip :: "string \<Rightarrow> string" where
  "strip s = rev (dropWhile is_int_space (rev (dropWhile is_int_space s)))"

definition int_max_str_digits :: int where
  "int_max_str_digits = 4300"

definition int_of_str :: "string \<Rightarrow> int option" where
  "int_of_str s =
     (case strip s of
        [] \<Rightarrow> None
      | c # cs \<Rightarrow>
          if int (length (filter isdecimal (c # cs))) > int_max_str_digits then None
          else if c = CHR ''-'' then map_option uminus (parse_unsigned cs)
          else if c = CHR ''+'' then parse_unsigned cs
          else parse_unsigned (c # cs))"

text \<open>\<^verbatim>\<open>int(v)\<close> for a value taken from the wishlist.\<close>

definition py_int :: "json \<Rightarrow> int result" where
  "py_int v =
     (case v of
        JInt n \<Rightarrow> Inr n
      | JBool b \<Rightarrow> Inr (if b then 1 else 0)
      | JStr s \<Rightarrow> (case int_of_str s of None \<Rightarrow> Inl ValueError | Some n \<Rightarrow> Inr n)
      | _ \<Rightarrow> Inl TypeError)"

section \<open>Output streams and command line arguments\<close>

record io =
  stdout :: string
  stderr :: string

definition pe :: "string \<Rightarrow> io \<Rightarrow> io" where
  "pe msg s = s\<lparr>stderr := stderr s @ msg\<rparr>"

text \<open>
  The namespace returned by \<^verbatim>\<open>parser.parse_args()\<close>, with the attributes the modelled
  code reads. \<open>fields_arg\<close> is \<^verbatim>\<open>args.fields\<close>, \<open>sort_arg\<close> is \<^verbatim>\<open>args.sort\<close> and
  \<open>type_arg\<close> is \<^verbatim>\<open>args.type\<close>.
\<close>

record args =
  userid :: "string option"
  cookie :: "string option"
  quiet :: bool
  fields_arg :: "string option"
  sort_arg :: "string option"
  num :: bool
  reverse :: bool
  save :: "string option"
  load :: "string option"
  platform :: "string list option"
  free :: bool
  no_free :: bool
  released :: bool
  no_released :: bool
  early :: bool
  no_early :: bool
  type_arg :: "string list option"
  tag :: "string list option"
  deck :: "string option"
  cc :: "string option"
  refresh :: bool
  discount :: "string option"
  price :: "string option"

definition progress :: "args \<Rightarrow> string \<Rightarrow> io \<Rightarrow> io" where
  "progress a msg s = (if \<not> quiet a then pe msg s else s)"

text \<open>
  \<^verbatim>\<open>integer(value, name, max)\<close>, with \<open>max_arg\<close> for \<^verbatim>\<open>max\<close>. \<^verbatim>\<open>if max:\<close> holds for a
  bound that is given and not zero.
\<close>

definition integer :: "string option \<Rightarrow> string \<Rightarrow> int option \<Rightarrow> io \<Rightarrow> io \<times> int result" where
  "integer value name max_arg s =
     (case value of
        None \<Rightarrow> (s, Inr 0)
      | Some text \<Rightarrow>
          (let has_max = (case max_arg of None \<Rightarrow> False | Some m \<Rightarrow> m \<noteq> 0);
               err = name @ '' must be an integer'';
               err = (if has_max
                      then err @ '' between 0 and '' @ str_int (the max_arg) @ '', inclusive.''
                      else err)
           in case int_of_str text of
                Some v \<Rightarrow>
                  if \<not> has_max \<or> v \<le> the max_arg then (s, Inr v)
                  else (pe (err @ [CHR 0x0A]) s, Inl (SystemExit 1))
              | None \<Rightarrow> (pe (err @ [CHR 0x0A]) s, Inl (SystemExit 1))))"

record wanted =
  wanted_discount :: int
  wanted_price :: int
  wanted_deck_rating :: int

text \<open>The three assignments after \<^verbatim>\<open>parse_args\<close>, in the order they run.\<close>

definition wanted_numbers :: "args \<Rightarrow> io \<Rightarrow> io \<times> wanted result" where
  "wanted_numbers a s =
     (case integer (discount a) ''Discount'' (Some 100) s of
        (s1, Inl e) \<Rightarrow> (s1, Inl e)
      | (s1, Inr d) \<Rightarrow>
          (case integer (price a) ''Price'' None s1 of
             (s2, Inl e) \<Rightarrow> (s2, Inl e)
           | (s2, Inr p) \<Rightarrow>
               (case integer (deck a) ''Steam Deck rating'' (Some 3) s2 of
                  (s3, Inl e) \<Rightarrow> (s3, Inl e)
                | (s3, Inr r) \<Rightarrow>
                    (s3, Inr \<lparr>wanted_discount = d, wanted_price = p, wanted_deck_rating = r\<rparr>))))"

text \<open>The namespace of a run without any flag, and the two empty streams.\<close>

definition no_args :: args where
  "no_args =
     \<lparr>userid = None, cookie = None, quiet = False, fields_arg = None, sort_arg = None,
      num = False, reverse = False, save = None, load = None, platform = None,
      free = False, no_free = False, released = False, no_released = False,
      early = False, no_early = False, type_arg = None, tag = None, deck = None,
      cc = None, refresh = False, discount = None, price = None\<rparr>"

definition no_output :: io where
  "no_output = \<lparr>stdout = [], stderr = []\<rparr>"

section \<open>Filters\<close>

text \<open>
  \<^verbatim>\<open>clean_str(s)\<close>. The comprehension walks over \<open>s\<close> and calls \<^verbatim>\<open>isalpha\<close> and
  \<^verbatim>\<open>lower\<close> on every item: for a string the items are its characters, for a list or a
  dict they are the elements or keys, which have the two methods only when they are strings.
\<close>

fun clean_items :: "json list \<Rightarrow> string result" where
  "clean_items [] = Inr []"
| "clean_items (JStr c # cs) =
     (case clean_items cs of
        Inl e \<Rightarrow> Inl e
      | Inr r \<Rightarrow> Inr ((if str_isalpha c then str_lower c else []) @ r))"
| "clean_items (_ # cs) = Inl AttributeError"

definition clean_str :: "json \<Rightarrow> string result" where
  "clean_str s = bind_result (iter_items s) clean_items"

text \<open>The loop over \<^verbatim>\<open>["linux", "win", "mac"]\<close> that sets \<^verbatim>\<open>add_game\<close> on a hit.\<close>

fun platform_loop :: "string list \<Rightarrow> json \<Rightarrow> string list \<Rightarrow> bool \<Rightarrow> bool result" where
  "platform_loop wanted_platforms fields' [] add_game = Inr add_game"
| "platform_loop wanted_platforms fields' (p # ps) add_game =
     (case dict_get fields' p JNull of
        Inl e \<Rightarrow> Inl e
      | Inr v \<Rightarrow>
          platform_loop wanted_platforms fields' ps
            (if truthy v \<and> p \<in> set wanted_platforms then True else add_game))"

definition platform_filter :: "args \<Rightarrow> json \<Rightarrow> bool \<Rightarrow> bool result" where
  "platform_filter a fields' add_game =
     (if given (platform a)
      then platform_loop (the (platform a)) fields' [''linux'', ''win'', ''mac''] False
      else Inr add_game)"

text \<open>\<^verbatim>\<open>add_game and fields.get("type", "").lower() in args.type\<close>: the right operand is
  evaluated only when \<^verbatim>\<open>add_game\<close> holds, and only a string has \<^verbatim>\<open>lower\<close>.\<close>

definition type_filter :: "args \<Rightarrow> json \<Rightarrow> bool \<Rightarrow> bool result" where
  "type_filter a fields' add_game =
     (if given (type_arg a) then
        (if add_game then
           (case dict_get fields' ''type'' (JStr []) of
              Inl e \<Rightarrow> Inl e
            | Inr (JStr t) \<Rightarrow> Inr (str_lower t \<in> set (the (type_arg a)))
            | Inr _ \<Rightarrow> Inl AttributeError)
         else Inr False)
      else Inr add_game)"

text \<open>
  The six tests of the form \<^verbatim>\<open>if args.flag and [not] fields.get(key, False): add_game = False\<close>.
  \<open>must_hold\<close> says whether the field has to be true for the game to stay.
\<close>

definition flag_filter :: "bool \<Rightarrow> string \<Rightarrow> bool \<Rightarrow> json \<Rightarrow> bool \<Rightarrow> bool result" where
  "flag_filter flag key must_hold fields' add_game =
     (if flag then
        (case dict_get fields' key (JBool False) of
           Inl e \<Rightarrow> Inl e
         | Inr v \<Rightarrow> Inr (if truthy v = must_hold then add_game else False))
      else Inr add_game)"

text \<open>The tag test; wanted tags come from the command line and are strings.\<close>

definition tag_filter :: "args \<Rightarrow> json \<Rightarrow> bool \<Rightarrow> bool result" where
  "tag_filter a fields' add_game =
     (if add_game \<and> given (tag a) then
        (case subscript fields' ''tags'' of
           Inl e \<Rightarrow> Inl e
         | Inr stored \<Rightarrow>
             (case bind_result (iter_items stored) (map_result clean_str) of
                Inl e \<Rightarrow> Inl e
              | Inr tags \<Rightarrow>
                  (case map_result (\<lambda>wanted_tag. clean_str (JStr wanted_tag)) (the (tag a)) of
                     Inl e \<Rightarrow> Inl e
                   | Inr wanted_tags \<Rightarrow> Inr (list_ex (\<lambda>w. w \<in> set tags) wanted_tags))))
      else Inr add_game)"

text \<open>\<^verbatim>\<open>if add_game and args.x: add_game = int(fields.get(key, 0)) >= wanted_x\<close>, and the
  same with \<^verbatim>\<open><=\<close> for the price.\<close>

definition number_filter ::
  "string option \<Rightarrow> string \<Rightarrow> (int \<Rightarrow> bool) \<Rightarrow> json \<Rightarrow> bool \<Rightarrow> bool result" where
  "number_filter flag key test fields' add_game =
     (if add_game \<and> given flag then
        (case dict_get fields' key (JInt 0) of
           Inl e \<Rightarrow> Inl e
         | Inr v \<Rightarrow> (case py_int v of Inl e \<Rightarrow> Inl e | Inr n \<Rightarrow> Inr (test n)))
      else Inr add_game)"

definition list_filter :: "string set list \<Rightarrow> string \<Rightarrow> bool \<Rightarrow> bool" where
  "list_filter filter_lists gameid add_game =
     foldl (\<lambda>add_game filter_list. add_game \<and> gameid \<in> filter_list) add_game filter_lists"

text \<open>
  The body of the loop over \<^verbatim>\<open>wishlist.items()\<close>, up to the final \<^verbatim>\<open>if add_game:\<close>.
  \<open>boolean_filters\<close> is the part before the tag test: platform, type and the six flags.
\<close>

definition boolean_filters :: "args \<Rightarrow> json \<Rightarrow> bool result" where
  "boolean_filters a fields' =
     bind_result (platform_filter a fields' True) (\<lambda>g.
     bind_result (type_filter a fields' g) (\<lambda>g.
     bind_result (flag_filter (free a) ''is_free_game'' True fields' g) (\<lambda>g.
     bind_result (flag_filter (no_free a) ''is_free_game'' False fields' g) (\<lambda>g.
     bind_result (flag_filter (released a) ''prerelease'' False fields' g) (\<lambda>g.
     bind_result (flag_filter (no_released a) ''prerelease'' True fields' g) (\<lambda>g.
     bind_result (flag_filter (early a) ''early_access'' True fields' g) (\<lambda>g.
     flag_filter (no_early a) ''early_access'' False fields' g)))))))"

definition add_game :: "args \<Rightarrow> wanted \<Rightarrow> string set list \<Rightarrow> string \<Rightarrow> json \<Rightarrow> bool result" where
  "add_game a w filter_lists gameid fields' =
     bind_result (boolean_filters a fields') (\<lambda>g.
     bind_result (tag_filter a fields' g) (\<lambda>g.
     bind_result (number_filter (discount a) ''discount_percent''
                    (\<lambda>n. n \<ge> wanted_discount w) fields' g) (\<lambda>g.
     bind_result (number_filter (price a) ''final''
                    (\<lambda>n. n \<le> wanted_price w) fields' g) (\<lambda>g.
     bind_result (number_filter (deck a) ''deck_compat''
                    (\<lambda>n. n \<ge> wanted_deck_rating w) fields' g) (\<lambda>g.
     Inr (list_filter filter_lists gameid g))))))"

text \<open>The loop: \<^verbatim>\<open>filtered\<close> starts empty and the result replaces \<^verbatim>\<open>wishlist\<close>.\<close>

fun filter_loop ::
  "args \<Rightarrow> wanted \<Rightarrow> string set list \<Rightarrow> dict \<Rightarrow> dict \<Rightarrow> dict result" where
  "filter_loop a w filter_lists [] filtered = Inr filtered"
| "filter_loop a w filter_lists ((gameid, fields') # rest) filtered =
     (case add_game a w filter_lists gameid fields' of
        Inl e \<Rightarrow> Inl e
      | Inr keep \<Rightarrow>
          filter_loop a w filter_lists rest
            (if keep then dict_set gameid fields' filtered else filtered))"

definition filter_wishlist :: "args \<Rightarrow> wanted \<Rightarrow> string set list \<Rightarrow> dict \<Rightarrow> dict result" where
  "filter_wishlist a w filter_lists wishlist = filter_loop a w filter_lists wishlist []"


text \<open>The two-entry wishlist of the specification's scenario, and \<^verbatim>\<open>--type game --price 1500\<close>.\<close>

definition scenario_wishlist :: dict where
  "scenario_wishlist =
     [(''10'', JObj [(''type'', JStr ''game''), (''is_free_game'', JBool False),
                     (''final'', JInt 999)]),
      (''20'', JObj [(''type'', JStr ''dlc''), (''is_free_game'', JBool True),
                     (''final'', JInt 0)])]"

definition scenario_args :: args where
  "scenario_args = no_args\<lparr>type_arg := Some [''game''], price := Some ''1500''\<rparr>"

definition scenario_wanted :: wanted where
  "scenario_wanted = \<lparr>wanted_discount = 0, wanted_price = 1500, wanted_deck_rating = 0\<rparr>"

section \<open>Price guard\<close>

text \<open>
  The condition in front of the price requests:
  \<^verbatim>\<open>args.cc and (not args.load or "_price" not in list(wishlist.values())[0] or args.refresh)\<close>.
  \<^verbatim>\<open>and\<close> and \<^verbatim>\<open>or\<close> evaluate from the left and stop as soon as the result is known.
\<close>

definition price_guard :: "args \<Rightarrow> dict \<Rightarrow> bool result" where
  "price_guard a wishlist =
     (if \<not> given (cc a) then Inr False
      else if \<not> given (load a) then Inr True
      else (case map snd wishlist of
              [] \<Rightarrow> Inl IndexError
            | first # _ \<Rightarrow>
                (case py_in ''_price'' first of
                   Inl e \<Rightarrow> Inl e
                 | Inr has_price \<Rightarrow> if \<not> has_price then Inr True else Inr (refresh a))))"

section \<open>Output\<close>

text \<open>\<^verbatim>\<open>s.split(sep)\<close> for a separator of one character.\<close>

fun split_on :: "char \<Rightarrow> string \<Rightarrow> string list" where
  "split_on sep [] = [] # []"
| "split_on sep (c # cs) =
     (if c = sep then [] # split_on sep cs
      else (case split_on sep cs of [] \<Rightarrow> [c] # [] | x # xs \<Rightarrow> (c # x) # xs))"

definition wanted_fields :: "args \<Rightarrow> string list option" where
  "wanted_fields a =
     (if \<not> given (fields_arg a) then None else Some (split_on CHR '','' (the (fields_arg a))))"

text \<open>\<^verbatim>\<open>"https://store.steampowered.com/app/{}".format(gameid)\<close>\<close>

definition store_link :: "string \<Rightarrow> string" where
  "store_link gameid = ''https://store.steampowered.com/app/'' @ gameid"

text \<open>The JSON branch: the loop over \<^verbatim>\<open>fields.items()\<close>, then the loop over the wishlist.\<close>

fun output_fields_loop :: "string list option \<Rightarrow> dict \<Rightarrow> dict \<Rightarrow> dict" where
  "output_fields_loop wfields [] output_fields = output_fields"
| "output_fields_loop wfields ((field_name, field_value) # rest) output_fields =
     output_fields_loop wfields rest
       (if \<not> given wfields \<or> field_name \<in> set (the wfields)
        then dict_set field_name field_value output_fields
        else output_fields)"

definition output_entry :: "string list option \<Rightarrow> string \<Rightarrow> json \<Rightarrow> json result" where
  "output_entry wfields gameid fields' =
     (case fields' of
        JObj kvs \<Rightarrow>
          (let output_fields = output_fields_loop wfields kvs [];
               output_fields =
                 (if given wfields \<and> ''link'' \<in> set (the wfields)
                  then dict_set ''link'' (JStr (store_link gameid)) output_fields
                  else output_fields)
           in Inr (JObj output_fields))
      | _ \<Rightarrow> Inl AttributeError)"

fun output_loop :: "string list option \<Rightarrow> dict \<Rightarrow> dict \<Rightarrow> dict result" where
  "output_loop wfields [] output = Inr output"
| "output_loop wfields ((gameid, fields') # rest) output =
     (case output_entry wfields gameid fields' of
        Inl e \<Rightarrow> Inl e
      | Inr output_fields \<Rightarrow> output_loop wfields rest (dict_set gameid output_fields output))"

text \<open>The value handed to \<^verbatim>\<open>json.dumps\<close> when \<^verbatim>\<open>--csv\<close> is not given.\<close>

definition json_output :: "args \<Rightarrow> dict \<Rightarrow> dict result" where
  "json_output a wishlist = output_loop (wanted_fields a) wishlist []"

section \<open>Sorting for CSV\<close>

datatype sort_key = KInt int | KStr string

text \<open>
  \<^verbatim>\<open>repr(v)\<close> and \<^verbatim>\<open>str(v)\<close>. A string is quoted with single quotes, or with double
  quotes when it holds a single quote and no double one; the quote, the backslash and the
  characters that are not printable are escaped. Writing an integer of more than 4300 digits
  raises \<^verbatim>\<open>ValueError\<close>, also inside a list or a dict: \<open>str_fits\<close> says that there is none.
\<close>

fun join :: "string \<Rightarrow> string list \<Rightarrow> string" where
  "join sep [] = []"
| "join sep [x] = x"
| "join sep (x # y # ys) = x @ sep @ join sep (y # ys)"

definition hex2 :: "nat \<Rightarrow> string" where
  "hex2 n = [''0123456789abcdef'' ! (n div 16), ''0123456789abcdef'' ! (n mod 16)]"

definition repr_char :: "char \<Rightarrow> char \<Rightarrow> string" where
  "repr_char q c =
     (let n = (of_char c :: nat) in
      if c = q \<or> c = CHR 0x5C then [CHR 0x5C, c]
      else if n = 9 then [CHR 0x5C, CHR ''t'']
      else if n = 10 then [CHR 0x5C, CHR ''n'']
      else if n = 13 then [CHR 0x5C, CHR ''r'']
      else if n < 32 \<or> n = 127 \<or> (128 \<le> n \<and> n \<le> 160) \<or> n = 173
      then [CHR 0x5C, CHR ''x''] @ hex2 n
      else [c])"

definition repr_str :: "string \<Rightarrow> string" where
  "repr_str s =
     (let q = (if CHR 0x27 \<in> set s \<and> CHR 0x22 \<notin> set s then CHR 0x22 else CHR 0x27)
      in [q] @ concat (map (repr_char q) s) @ [q])"

fun py_repr :: "json \<Rightarrow> string" where
  "py_repr JNull = ''None''"
| "py_repr (JBool b) = (if b then ''True'' else ''False'')"
| "py_repr (JInt n) = str_int n"
| "py_repr (JStr s) = repr_str s"
| "py_repr (JList xs) = ''['' @ join '', '' (map py_repr xs) @ '']''"
| "py_repr (JObj kvs) =
     ''{'' @ join '', '' (map (\<lambda>kv. repr_str (fst kv) @ '': '' @ py_repr (snd kv)) kvs) @ ''}''"

definition int_fits :: "int \<Rightarrow> bool" where
  "int_fits n = (abs n < 10 ^ 4300)"

fun str_fits :: "json \<Rightarrow> bool" where
  "str_fits (JInt n) = int_fits n"
| "str_fits (JList xs) = list_all str_fits xs"
| "str_fits (JObj kvs) = list_all (\<lambda>kv. str_fits (snd kv)) kvs"
| "str_fits v = True"

definition py_str :: "json \<Rightarrow> string result" where
  "py_str v =
     (case v of
        JStr s \<Rightarrow> Inr s
      | _ \<Rightarrow> if str_fits v then Inr (py_repr v) else Inl ValueError)"

text \<open>The first half of \<^verbatim>\<open>sorter(item)\<close>: the value to sort by.\<close>

definition sort_value :: "args \<Rightarrow> string \<times> json \<Rightarrow> json result" where
  "sort_value a item =
     bind_result (dict_get (snd item) ''added'' JNull) (\<lambda>val.
       if given (sort_arg a) then
         (if the (sort_arg a) \<in> set [''id'', ''gameid''] then Inr (JStr (fst item))
          else dict_get (snd item) (the (sort_arg a)) (if num a then JInt 0 else JStr []))
       else Inr val)"

definition sorter :: "args \<Rightarrow> string \<times> json \<Rightarrow> sort_key result" where
  "sorter a item =
     bind_result (sort_value a item) (\<lambda>val.
       if num a then (case py_int val of Inl e \<Rightarrow> Inl e | Inr n \<Rightarrow> Inr (KInt n))
       else
         bind_result (py_str val) (\<lambda>shown.
           if str_isdigit shown
           then (case py_int val of Inl e \<Rightarrow> Inl e | Inr n \<Rightarrow> Inr (KInt n))
           else Inr (KStr shown)))"

text \<open>
  Comparison of two keys with \<^verbatim>\<open><\<close>: integers by value, strings character by character,
  and \<^verbatim>\<open>TypeError\<close> for an integer against a string.
\<close>

fun str_less :: "string \<Rightarrow> string \<Rightarrow> bool" where
  "str_less s [] = False"
| "str_less [] (d # ds) = True"
| "str_less (c # cs) (d # ds) =
     ((of_char c :: nat) < of_char d \<or> (c = d \<and> str_less cs ds))"

fun key_less :: "sort_key \<Rightarrow> sort_key \<Rightarrow> bool" where
  "key_less (KInt i) (KInt j) = (i < j)"
| "key_less (KStr s) (KStr t) = str_less s t"
| "key_less _ _ = False"

definition is_int_key :: "sort_key \<Rightarrow> bool" where
  "is_int_key k = (case k of KInt i \<Rightarrow> True | KStr s \<Rightarrow> False)"

text \<open>
  \<^verbatim>\<open>sorted(wishlist.items(), key=sorter, reverse=args.reverse)\<close>. The key is computed for
  every item first. The sort is stable; with \<^verbatim>\<open>reverse\<close> the list is reversed before and
  after, so equal keys keep their order. Keys of both kinds in one list make a comparison
  raise.
\<close>

fun insort_item :: "sort_key \<times> 'a \<Rightarrow> (sort_key \<times> 'a) list \<Rightarrow> (sort_key \<times> 'a) list" where
  "insort_item x [] = [x]"
| "insort_item x (y # ys) =
     (if key_less (fst y) (fst x) then y # insort_item x ys else x # y # ys)"

definition stable_sort :: "(sort_key \<times> 'a) list \<Rightarrow> (sort_key \<times> 'a) list" where
  "stable_sort xs = foldr insort_item xs []"

definition py_sorted :: "args \<Rightarrow> dict \<Rightarrow> dict result" where
  "py_sorted a items =
     (case map_result (sorter a) items of
        Inl e \<Rightarrow> Inl e
      | Inr keys \<Rightarrow>
          if list_ex is_int_key keys \<and> list_ex (\<lambda>k. \<not> is_int_key k) keys then Inl TypeError
          else Inr (map snd
                 (if reverse a then rev (stable_sort (rev (zip keys items)))
                  else stable_sort (zip keys items))))"

section \<open>Fetching the wishlist\<close>

text \<open>
  A request is its address and its headers. The network is a function from requests to
  what \<^verbatim>\<open>urlopen\<close> and \<^verbatim>\<open>json.loads\<close> make of them: the decoded body, a body that is not
  JSON, an \<^verbatim>\<open>HTTPError\<close> with its status, or another \<^verbatim>\<open>URLError\<close>.
\<close>

record request =
  req_url :: string
  req_headers :: "(string \<times> string) list"

datatype response =
    Reply json
  | Malformed
  | HTTPFailure nat
  | URLFailure

definition request :: "string \<Rightarrow> request" where
  "request url =
     \<lparr>req_url = url,
      req_headers =
        [(''User-Agent'',
          ''Mozilla/5.0 (X11; Linux x86_64) AppleWebKit/537.36 (KHTML, like Gecko) Chrome/118.0.0.0 Safari/537.36'')]\<rparr>"

definition add_header :: "request \<Rightarrow> string \<Rightarrow> string \<Rightarrow> request" where
  "add_header req key val = req\<lparr>req_headers := dict_set key val (req_headers req)\<rparr>"

definition wishlist_url :: "args \<Rightarrow> string" where
  "wishlist_url a =
     ''https://store.steampowered.com/wishlist/profiles/'' @ the (userid a) @ ''/wishlistdata/?p=''"

definition page_request :: "args \<Rightarrow> string \<Rightarrow> int \<Rightarrow> request" where
  "page_request a url page =
     (let req = request (url @ str_int page)
      in if given (cookie a)
         then add_header req ''Cookie'' (''steamLoginSecure='' @ the (cookie a))
         else req)"

text \<open>\<^verbatim>\<open>for k, v in json_obj.items(): wishlist[k] = v\<close>\<close>

definition merge_page :: "dict \<Rightarrow> dict \<Rightarrow> dict" where
  "merge_page json_obj wishlist = foldl (\<lambda>w kv. dict_set (fst kv) (snd kv) w) wishlist json_obj"

text \<open>
  The \<^verbatim>\<open>while True\<close> loop, entered with \<^verbatim>\<open>page = -1\<close> and the empty wishlist. It need not
  end: the result is \<open>None\<close> when every page is a non-empty object.
\<close>

partial_function (option) fetch_loop ::
  "(request \<Rightarrow> response) \<Rightarrow> args \<Rightarrow> string \<Rightarrow> int \<Rightarrow> dict \<Rightarrow> io \<Rightarrow> (io \<times> dict result) option" where
  "fetch_loop urlopen a url page wishlist s =
     (case urlopen (page_request a url (page + 1)) of
        HTTPFailure code \<Rightarrow>
          Some (pe (if given (cookie a) then ''Is the provided cookie invalid or expired?'' @ [CHR 0x0A, CHR 0x0A]
                    else ''Is the wishlist private?'' @ [CHR 0x0A, CHR 0x0A])
                  (pe ''Could not get wishlist. ''
                    (progress a (''Fetching wishlist page '' @ str_int (page + 1 + 1) @ [CHR 0x0A]) s)),
                Inl (HTTPError code))
      | URLFailure \<Rightarrow>
          Some (progress a (''Fetching wishlist page '' @ str_int (page + 1 + 1) @ [CHR 0x0A]) s,
                Inl URLError)
      | Malformed \<Rightarrow>
          Some (progress a (''Fetching wishlist page '' @ str_int (page + 1 + 1) @ [CHR 0x0A]) s,
                Inl JSONDecodeError)
      | Reply json_obj \<Rightarrow>
          (case json_obj of
             JObj kvs \<Rightarrow>
               if kvs = []
               then Some (progress a (''Fetching wishlist page '' @ str_int (page + 1 + 1) @ [CHR 0x0A]) s,
                          Inr wishlist)
               else fetch_loop urlopen a url (page + 1) (merge_page kvs wishlist)
                      (progress a (''Fetching wishlist page '' @ str_int (page + 1 + 1) @ [CHR 0x0A]) s)
           | _ \<Rightarrow>
               Some (progress a (''Fetching wishlist page '' @ str_int (page + 1 + 1) @ [CHR 0x0A]) s,
                     Inr wishlist)))"

text \<open>
  The \<^verbatim>\<open>else\<close> branch of \<^verbatim>\<open>if args.load:\<close>. \<open>usage\<close> is the text that
  \<^verbatim>\<open>parser.print_help\<close> writes.
\<close>

definition fetch_wishlist ::
  "(request \<Rightarrow> response) \<Rightarrow> string \<Rightarrow> args \<Rightarrow> io \<Rightarrow> (io \<times> dict result) option" where
  "fetch_wishlist urlopen usage a s =
     (if \<not> given (userid a)
      then Some (pe usage (pe (''Missing <userid> or --load'' @ [CHR 0x0A, CHR 0x0A]) s),
                 Inl (SystemExit 1))
      else fetch_loop urlopen a (wishlist_url a) (- 1) [] s)"

text \<open>The entries of pages \<open>0\<close> to \<open>p - 1\<close>, merged in this order.\<close>

fun merged_pages :: "(request \<Rightarrow> response) \<Rightarrow> args \<Rightarrow> string \<Rightarrow> nat \<Rightarrow> dict" where
  "merged_pages urlopen a url 0 = []"
| "merged_pages urlopen a url (Suc p) =
     merge_page
       (case urlopen (page_request a url (int p)) of Reply (JObj kvs) \<Rightarrow> kvs | _ \<Rightarrow> [])
       (merged_pages urlopen a url p)"

text \<open>
  A store that answers page 0 of user 76561198000000000 with one game and every other
  request with \<open>later\<close>.
\<close>

definition example_args :: args where
  "example_args = no_args\<lparr>userid := Some ''76561198000000000''\<rparr>"

definition example_store :: "response \<Rightarrow> request \<Rightarrow> response" where
  "example_store later req =
     (if req_url req =
         ''https://store.steampowered.com/wishlist/profiles/76561198000000000/wishlistdata/?p=0''
      then Reply (JObj [(''10'', JObj [(''name'', JStr ''Foo'')])])
      else later)"

section \<open>Snapshots\<close>

text \<open>
  \<^verbatim>\<open>json.dump(wishlist, file)\<close> with its defaults: \<^verbatim>\<open>", "\<close> between items, \<^verbatim>\<open>": "\<close>
  after a key, and every character outside the printable ASCII range escaped.
\<close>

definition hex4 :: "nat \<Rightarrow> string" where
  "hex4 n =
     [''0123456789abcdef'' ! (n div 4096), ''0123456789abcdef'' ! (n div 256 mod 16),
      ''0123456789abcdef'' ! (n div 16 mod 16), ''0123456789abcdef'' ! (n mod 16)]"

definition escape_char :: "char \<Rightarrow> string" where
  "escape_char c =
     (if c = CHR 0x22 then [CHR 0x5C, CHR 0x22]
      else if c = CHR 0x5C then [CHR 0x5C, CHR 0x5C]
      else if c = CHR 0x08 then [CHR 0x5C, CHR ''b'']
      else if c = CHR 0x0C then [CHR 0x5C, CHR ''f'']
      else if c = CHR 0x0A then [CHR 0x5C, CHR ''n'']
      else if c = CHR 0x0D then [CHR 0x5C, CHR ''r'']
      else if c = CHR 0x09 then [CHR 0x5C, CHR ''t'']
      else if (of_char c :: nat) < 32 \<or> 126 < (of_char c :: nat)
      then [CHR 0x5C, CHR ''u''] @ hex4 (of_char c)
      else [c])"

definition dumps_str :: "string \<Rightarrow> string" where
  "dumps_str s = CHR 0x22 # concat (map escape_char s) @ [CHR 0x22]"

fun json_dumps :: "json \<Rightarrow> string" where
  "json_dumps JNull = ''null''"
| "json_dumps (JBool b) = (if b then ''true'' else ''false'')"
| "json_dumps (JInt n) = str_int n"
| "json_dumps (JStr s) = dumps_str s"
| "json_dumps (JList xs) = ''['' @ join '', '' (map json_dumps xs) @ '']''"
| "json_dumps (JObj kvs) =
     ''{'' @ join '', '' (map (\<lambda>kv. dumps_str (fst kv) @ '': '' @ json_dumps (snd kv)) kvs) @ ''}''"

text \<open>
  \<^verbatim>\<open>json.load(file)\<close>. \<open>None\<close> stands for \<^verbatim>\<open>JSONDecodeError\<close>, and also for a document
  that holds what the model has no value for: a number with a fraction or an exponent,
  \<^verbatim>\<open>NaN\<close>, \<^verbatim>\<open>Infinity\<close>, or an escape of a character above 255.
\<close>

definition is_ws :: "char \<Rightarrow> bool" where
  "is_ws c = (let n = (of_char c :: nat) in n = 32 \<or> n = 9 \<or> n = 10 \<or> n = 13)"

definition skip_ws :: "string \<Rightarrow> string" where
  "skip_ws s = dropWhile is_ws s"

definition hexval :: "char \<Rightarrow> nat option" where
  "hexval c =
     (let n = (of_char c :: nat) in
      if 48 \<le> n \<and> n \<le> 57 then Some (n - 48)
      else if 97 \<le> n \<and> n \<le> 102 then Some (n - 87)
      else if 65 \<le> n \<and> n \<le> 70 then Some (n - 55)
      else None)"

definition unescape :: "char \<Rightarrow> char option" where
  "unescape e =
     (if e = CHR 0x22 then Some (CHR 0x22)
      else if e = CHR 0x5C then Some (CHR 0x5C)
      else if e = CHR ''/'' then Some (CHR ''/'')
      else if e = CHR ''b'' then Some (CHR 0x08)
      else if e = CHR ''f'' then Some (CHR 0x0C)
      else if e = CHR ''n'' then Some (CHR 0x0A)
      else if e = CHR ''r'' then Some (CHR 0x0D)
      else if e = CHR ''t'' then Some (CHR 0x09)
      else None)"

definition unicode_escape :: "char \<Rightarrow> char \<Rightarrow> char \<Rightarrow> char \<Rightarrow> char option" where
  "unicode_escape h1 h2 h3 h4 =
     (case (hexval h1, hexval h2, hexval h3, hexval h4) of
        (Some a, Some b, Some c, Some d) \<Rightarrow>
          (let n = ((a * 16 + b) * 16 + c) * 16 + d in if n < 256 then Some (char_of n) else None)
      | _ \<Rightarrow> None)"

text \<open>The characters of a string after its opening quote, up to the closing one.\<close>

fun scanstring :: "string \<Rightarrow> (string \<times> string) option" where
  "scanstring [] = None"
| "scanstring (c # cs) =
     (if c = CHR 0x22 then Some ([], cs)
      else if c = CHR 0x5C then
        (case cs of
           [] \<Rightarrow> None
         | e # es \<Rightarrow>
             if e = CHR ''u'' then
               (case es of
                  h1 # h2 # h3 # h4 # rest \<Rightarrow>
                    (case unicode_escape h1 h2 h3 h4 of
                       None \<Rightarrow> None
                     | Some d \<Rightarrow> map_option (\<lambda>(s, r). (d # s, r)) (scanstring rest))
                | _ \<Rightarrow> None)
             else
               (case unescape e of
                  None \<Rightarrow> None
                | Some d \<Rightarrow> map_option (\<lambda>(s, r). (d # s, r)) (scanstring es)))
      else if (of_char c :: nat) < 32 then None
      else map_option (\<lambda>(s, r). (c # s, r)) (scanstring cs))"

text \<open>
  An integer: an optional minus sign, then \<^verbatim>\<open>0\<close> or a digit from 1 to 9 followed by digits.
  What follows must not make it a number with a fraction or an exponent.
\<close>

definition digits_value :: "string \<Rightarrow> int" where
  "digits_value ds = foldl (\<lambda>acc d. acc * 10 + int (digit_val d)) 0 ds"

definition no_fraction :: "string \<Rightarrow> bool" where
  "no_fraction r = (case r of [] \<Rightarrow> True | c # _ \<Rightarrow> c \<notin> set ''.eE'')"

definition scan_natural :: "string \<Rightarrow> (int \<times> string) option" where
  "scan_natural s =
     (case s of
        [] \<Rightarrow> None
      | c # cs \<Rightarrow>
          if c = CHR ''0'' then (if no_fraction cs then Some (0, cs) else None)
          else if isdecimal c then
            (if no_fraction (dropWhile isdecimal cs)
             then Some (digits_value (c # takeWhile isdecimal cs), dropWhile isdecimal cs)
             else None)
          else None)"

definition scan_number :: "string \<Rightarrow> (int \<times> string) option" where
  "scan_number s =
     (case s of
        [] \<Rightarrow> None
      | c # cs \<Rightarrow>
          if c = CHR ''-'' then map_option (\<lambda>(n, r). (- n, r)) (scan_natural cs)
          else scan_natural s)"

text \<open>
  The scanner. \<open>fuel\<close> bounds the number of nested calls; the length of the document is
  always enough. Members with the same key are stored as \<^verbatim>\<open>dict(pairs)\<close> stores them.
\<close>

fun scan_once :: "nat \<Rightarrow> string \<Rightarrow> (json \<times> string) option"
  and scan_array :: "nat \<Rightarrow> string \<Rightarrow> json list \<Rightarrow> (json list \<times> string) option"
  and scan_object :: "nat \<Rightarrow> string \<Rightarrow> dict \<Rightarrow> (dict \<times> string) option" where
  "scan_once 0 s = None"
| "scan_once (Suc fuel) s =
     (case s of
        [] \<Rightarrow> None
      | c # cs \<Rightarrow>
          if c = CHR 0x22 then map_option (\<lambda>(t, r). (JStr t, r)) (scanstring cs)
          else if c = CHR ''{'' then
            (case skip_ws cs of
               [] \<Rightarrow> None
             | d # ds \<Rightarrow>
                 if d = CHR ''}'' then Some (JObj [], ds)
                 else map_option (\<lambda>(kvs, r). (JObj kvs, r)) (scan_object fuel (d # ds) []))
          else if c = CHR ''['' then
            (case skip_ws cs of
               [] \<Rightarrow> None
             | d # ds \<Rightarrow>
                 if d = CHR '']'' then Some (JList [], ds)
                 else map_option (\<lambda>(xs, r). (JList xs, r)) (scan_array fuel (d # ds) []))
          else if starts_with s ''null'' then Some (JNull, drop 4 s)
          else if starts_with s ''true'' then Some (JBool True, drop 4 s)
          else if starts_with s ''false'' then Some (JBool False, drop 5 s)
          else map_option (\<lambda>(n, r). (JInt n, r)) (scan_number s))"
| "scan_array 0 s acc = None"
| "scan_array (Suc fuel) s acc =
     (case scan_once fuel s of
        None \<Rightarrow> None
      | Some (v, r) \<Rightarrow>
          (case skip_ws r of
             [] \<Rightarrow> None
           | d # ds \<Rightarrow>
               if d = CHR '']'' then Some (acc @ [v], ds)
               else if d = CHR '','' then scan_array fuel (skip_ws ds) (acc @ [v])
               else None))"
| "scan_object 0 s acc = None"
| "scan_object (Suc fuel) s acc =
     (case s of
        [] \<Rightarrow> None
      | q # cs \<Rightarrow>
          if q \<noteq> CHR 0x22 then None
          else
            (case scanstring cs of
               None \<Rightarrow> None
             | Some (k, r) \<Rightarrow>
                 (case skip_ws r of
                    [] \<Rightarrow> None
                  | colon # r1 \<Rightarrow>
                      if colon \<noteq> CHR '':'' then None
                      else
                        (case scan_once fuel (skip_ws r1) of
                           None \<Rightarrow> None
                         | Some (v, r2) \<Rightarrow>
                             (case skip_ws r2 of
                                [] \<Rightarrow> None
                              | d # ds \<Rightarrow>
                                  if d = CHR ''}'' then Some (dict_set k v acc, ds)
                                  else if d = CHR '','' then
                                    scan_object fuel (skip_ws ds) (dict_set k v acc)
                                  else None)))))"

definition json_loads :: "string \<Rightarrow> json option" where
  "json_loads s =
     (case scan_once (length s) (skip_ws s) of
        None \<Rightarrow> None
      | Some (v, r) \<Rightarrow> if skip_ws r = [] then Some v else None)"

text \<open>
  Files are a map from paths to contents. \<^verbatim>\<open>--save\<close> writes the wishlist as it is before
  filtering; \<^verbatim>\<open>--load\<close> makes whatever the file holds the wishlist.
\<close>

definition save_snapshot :: "args \<Rightarrow> dict \<Rightarrow> (string \<rightharpoonup> string) \<Rightarrow> (string \<rightharpoonup> string)" where
  "save_snapshot a wishlist files =
     (if given (save a) then files(the (save a) \<mapsto> json_dumps (JObj wishlist)) else files)"

definition load_snapshot :: "args \<Rightarrow> (string \<rightharpoonup> string) \<Rightarrow> json result" where
  "load_snapshot a files =
     (case files (the (load a)) of
        None \<Rightarrow> Inl FileNotFoundError
      | Some text \<Rightarrow>
          (case json_loads text of None \<Rightarrow> Inl JSONDecodeError | Some wishlist \<Rightarrow> Inr wishlist))"

text \<open>A value as Python holds it: no dict in it has a key twice.\<close>

fun dict_ok :: "json \<Rightarrow> bool" where
  "dict_ok (JList xs) = list_all dict_ok xs"
| "dict_ok (JObj kvs) = (distinct (map fst kvs) \<and> list_all (\<lambda>kv. dict_ok (snd kv)) kvs)"
| "dict_ok v = True"

text \<open>What follows a value inside a document written by \<open>json_dumps\<close>, or at its end.\<close>

definition after_value :: "string \<Rightarrow> bool" where
  "after_value r = (case r of [] \<Rightarrow> True | c # _ \<Rightarrow> c \<in> set '',]}'')"

section \<open>Validation of the numeric flags\<close>

lemma str_int_100: "str_int 100 = ''100''"
  by code_simp

lemma str_int_3: "str_int 3 = ''3''"
  by code_simp

text \<open>
  \<^verbatim>\<open>int()\<close> at the edges: U+001F in front of a number is not dropped, U+00A0 is, and
  more than 4300 digits are refused.
\<close>

lemma int_of_str_unit_separator: "int_of_str (CHR 0x1F # ''5'') = None"
  by code_simp

lemma int_of_str_no_break_space: "int_of_str (CHR 0xA0 # ''5'') = Some 5"
  by code_simp

lemma int_of_str_digit_limit:
  "4300 < length (filter isdecimal (strip s)) \<Longrightarrow> int_of_str s = None"
  by (auto simp: int_of_str_def int_max_str_digits_def split: list.splits)

lemma integer_accepts_or_exits:
  "(\<exists>v. integer value name max_arg s = (s, Inr v)) \<or>
   (\<exists>msg. integer value name max_arg s = (pe (name @ msg @ [CHR 0x0A]) s, Inl (SystemExit 1)) \<and>
      msg = '' must be an integer'' @
        (if max_arg = None \<or> max_arg = Some 0 then []
         else '' between 0 and '' @ str_int (the max_arg) @ '', inclusive.''))"
  by (auto simp: integer_def Let_def split: option.splits)

lemma integer_rejects:
  assumes "\<forall>v. int_of_str t = Some v \<longrightarrow> m < v" and "m \<noteq> 0"
  shows "integer (Some t) name (Some m) s =
    (pe (name @ '' must be an integer between 0 and '' @ str_int m @ '', inclusive.'' @ [CHR 0x0A]) s,
     Inl (SystemExit 1))"
  using assms by (auto simp: integer_def Let_def split: option.splits)

lemma integer_rejects_unbounded:
  assumes "int_of_str t = None"
  shows "integer (Some t) name None s =
    (pe (name @ '' must be an integer'' @ [CHR 0x0A]) s, Inl (SystemExit 1))"
  using assms by (simp add: integer_def)

text \<open>
  Claim C2, as the code has it. A value of \<^verbatim>\<open>--discount\<close> that \<^verbatim>\<open>int()\<close> does not parse or
  that parses to more than 100, a value of \<^verbatim>\<open>--deck\<close> that does not parse or parses to more
  than 3, or a value of \<^verbatim>\<open>--price\<close> that does not parse, ends the three assignments with
  \<^verbatim>\<open>sys.exit(1)\<close>: one of the three error lines has been appended to the error stream and
  standard output is as it was. Nothing is said here about negative values.
\<close>

theorem wanted_numbers_rejects:
  assumes "(\<exists>t. discount a = Some t \<and> (\<forall>v. int_of_str t = Some v \<longrightarrow> 100 < v))
         \<or> (\<exists>t. price a = Some t \<and> int_of_str t = None)
         \<or> (\<exists>t. deck a = Some t \<and> (\<forall>v. int_of_str t = Some v \<longrightarrow> 3 < v))"
  shows "\<exists>msg \<in> {''Discount must be an integer between 0 and 100, inclusive.'',
                  ''Price must be an integer'',
                  ''Steam Deck rating must be an integer between 0 and 3, inclusive.''}.
           wanted_numbers a s =
             (s\<lparr>stderr := stderr s @ msg @ [CHR 0x0A]\<rparr>, Inl (SystemExit 1))"
proof -
  let ?D = "integer (discount a) ''Discount'' (Some 100) s"
  let ?P = "integer (price a) ''Price'' None s"
  let ?K = "integer (deck a) ''Steam Deck rating'' (Some 3) s"
  have D: "(\<exists>v. ?D = (s, Inr v)) \<or>
     ?D = (pe (''Discount must be an integer between 0 and 100, inclusive.'' @ [CHR 0x0A]) s,
           Inl (SystemExit 1))"
    using integer_accepts_or_exits [of "discount a" "''Discount''" "Some 100" s]
    by (auto simp: str_int_100)
  have P: "(\<exists>v. ?P = (s, Inr v)) \<or>
     ?P = (pe (''Price must be an integer'' @ [CHR 0x0A]) s, Inl (SystemExit 1))"
    using integer_accepts_or_exits [of "price a" "''Price''" None s] by auto
  have K: "(\<exists>v. ?K = (s, Inr v)) \<or>
     ?K = (pe (''Steam Deck rating must be an integer between 0 and 3, inclusive.'' @ [CHR 0x0A]) s,
           Inl (SystemExit 1))"
    using integer_accepts_or_exits [of "deck a" "''Steam Deck rating''" "Some 3" s]
    by (auto simp: str_int_3)
  have D': "?D = (pe (''Discount must be an integer between 0 and 100, inclusive.'' @ [CHR 0x0A]) s,
                  Inl (SystemExit 1))"
    if "\<exists>t. discount a = Some t \<and> (\<forall>v. int_of_str t = Some v \<longrightarrow> 100 < v)"
    using that integer_rejects [of _ 100 "''Discount''" s] by (auto simp: str_int_100)
  have P': "?P = (pe (''Price must be an integer'' @ [CHR 0x0A]) s, Inl (SystemExit 1))"
    if "\<exists>t. price a = Some t \<and> int_of_str t = None"
    using that integer_rejects_unbounded [of _ "''Price''" s] by auto
  have K': "?K = (pe (''Steam Deck rating must be an integer between 0 and 3, inclusive.'' @ [CHR 0x0A]) s,
                  Inl (SystemExit 1))"
    if "\<exists>t. deck a = Some t \<and> (\<forall>v. int_of_str t = Some v \<longrightarrow> 3 < v)"
    using that integer_rejects [of _ 3 "''Steam Deck rating''" s] by (auto simp: str_int_3)
  show ?thesis
    using assms D P K D' P' K'
    by (auto simp: wanted_numbers_def pe_def)
qed

text \<open>
  The theorem at \<^verbatim>\<open>--discount 101\<close>, at \<^verbatim>\<open>--price 9.99\<close>, at \<^verbatim>\<open>--deck 4\<close>, and at a price
  of \<^verbatim>\<open>5\<close> behind the character U+001F, which \<^verbatim>\<open>int()\<close> does not drop.
\<close>

theorem wanted_numbers_rejects_witness:
  "(\<exists>msg \<in> {''Discount must be an integer between 0 and 100, inclusive.'',
             ''Price must be an integer'',
             ''Steam Deck rating must be an integer between 0 and 3, inclusive.''}.
      wanted_numbers (no_args\<lparr>discount := Some ''101''\<rparr>) no_output =
        (no_output\<lparr>stderr := stderr no_output @ msg @ [CHR 0x0A]\<rparr>, Inl (SystemExit 1)))
 \<and> (\<exists>msg \<in> {''Discount must be an integer between 0 and 100, inclusive.'',
             ''Price must be an integer'',
             ''Steam Deck rating must be an integer between 0 and 3, inclusive.''}.
      wanted_numbers (no_args\<lparr>price := Some ''9.99''\<rparr>) no_output =
        (no_output\<lparr>stderr := stderr no_output @ msg @ [CHR 0x0A]\<rparr>, Inl (SystemExit 1)))
 \<and> (\<exists>msg \<in> {''Discount must be an integer between 0 and 100, inclusive.'',
             ''Price must be an integer'',
             ''Steam Deck rating must be an integer between 0 and 3, inclusive.''}.
      wanted_numbers (no_args\<lparr>deck := Some ''4''\<rparr>) no_output =
        (no_output\<lparr>stderr := stderr no_output @ msg @ [CHR 0x0A]\<rparr>, Inl (SystemExit 1)))
 \<and> (\<exists>msg \<in> {''Discount must be an integer between 0 and 100, inclusive.'',
             ''Price must be an integer'',
             ''Steam Deck rating must be an integer between 0 and 3, inclusive.''}.
      wanted_numbers (no_args\<lparr>price := Some (CHR 0x1F # ''5'')\<rparr>) no_output =
        (no_output\<lparr>stderr := stderr no_output @ msg @ [CHR 0x0A]\<rparr>, Inl (SystemExit 1)))"
proof (intro conjI)
  have d: "int_of_str ''101'' = Some 101"
    by code_simp
  show "\<exists>msg \<in> {''Discount must be an integer between 0 and 100, inclusive.'',
             ''Price must be an integer'',
             ''Steam Deck rating must be an integer between 0 and 3, inclusive.''}.
      wanted_numbers (no_args\<lparr>discount := Some ''101''\<rparr>) no_output =
        (no_output\<lparr>stderr := stderr no_output @ msg @ [CHR 0x0A]\<rparr>, Inl (SystemExit 1))"
    by (rule wanted_numbers_rejects) (simp add: d)
  have p: "int_of_str ''9.99'' = None"
    by code_simp
  show "\<exists>msg \<in> {''Discount must be an integer between 0 and 100, inclusive.'',
             ''Price must be an integer'',
             ''Steam Deck rating must be an integer between 0 and 3, inclusive.''}.
      wanted_numbers (no_args\<lparr>price := Some ''9.99''\<rparr>) no_output =
        (no_output\<lparr>stderr := stderr no_output @ msg @ [CHR 0x0A]\<rparr>, Inl (SystemExit 1))"
    by (rule wanted_numbers_rejects) (simp add: p)
  have k: "int_of_str ''4'' = Some 4"
    by code_simp
  show "\<exists>msg \<in> {''Discount must be an integer between 0 and 100, inclusive.'',
             ''Price must be an integer'',
             ''Steam Deck rating must be an integer between 0 and 3, inclusive.''}.
      wanted_numbers (no_args\<lparr>deck := Some ''4''\<rparr>) no_output =
        (no_output\<lparr>stderr := stderr no_output @ msg @ [CHR 0x0A]\<rparr>, Inl (SystemExit 1))"
    by (rule wanted_numbers_rejects) (simp add: k)
  have u: "int_of_str (CHR 0x1F # ''5'') = None"
    by code_simp
  show "\<exists>msg \<in> {''Discount must be an integer between 0 and 100, inclusive.'',
             ''Price must be an integer'',
             ''Steam Deck rating must be an integer between 0 and 3, inclusive.''}.
      wanted_numbers (no_args\<lparr>price := Some (CHR 0x1F # ''5'')\<rparr>) no_output =
        (no_output\<lparr>stderr := stderr no_output @ msg @ [CHR 0x0A]\<rparr>, Inl (SystemExit 1))"
    by (rule wanted_numbers_rejects) (simp add: u)
qed

text \<open>
  The claim as the specification words it also covers negative values. They are accepted:
  \<^verbatim>\<open>--discount -5 --price -1 --deck -2\<close> passes all three checks and nothing is written.
\<close>

theorem wanted_numbers_negative_counterexample:
  "wanted_numbers
     (no_args\<lparr>discount := Some ''-5'', price := Some ''-1'', deck := Some ''-2''\<rparr>) no_output =
   (no_output, Inr \<lparr>wanted_discount = - 5, wanted_price = - 1, wanted_deck_rating = - 2\<rparr>)"
  by code_simp

section \<open>The filter loop\<close>

lemma set_dict_set: "set (dict_set k v d) \<subseteq> insert (k, v) (set d)"
  by (induction d) (auto split: if_splits)

lemma length_dict_set: "length (dict_set k v d) \<le> Suc (length d)"
  by (induction d) auto

lemma keys_dict_set: "fst ` set (dict_set k v d) = insert k (fst ` set d)"
  by (induction d) (force split: if_splits)+

lemma distinct_dict_set: "distinct (map fst d) \<Longrightarrow> distinct (map fst (dict_set k v d))"
proof (induction d)
  case Nil
  then show ?case by simp
next
  case (Cons p d)
  obtain k' v' where p: "p = (k', v')" by (cases p)
  from Cons show ?case
    using keys_dict_set [of k v d] by (auto simp: p)
qed

lemma dict_set_fresh: "k \<notin> fst ` set d \<Longrightarrow> dict_set k v d = d @ [(k, v)]"
  by (induction d) auto

lemma filter_loop_subset:
  "filter_loop a w fl wl acc = Inr r \<Longrightarrow> set r \<subseteq> set acc \<union> set wl"
proof (induction wl arbitrary: acc)
  case Nil
  then show ?case by simp
next
  case (Cons p wl)
  obtain k f where p: "p = (k, f)" by (cases p)
  from Cons.prems obtain keep where
    loop: "filter_loop a w fl wl (if keep then dict_set k f acc else acc) = Inr r"
    by (auto simp: p split: sum.splits)
  from Cons.IH [OF loop] set_dict_set [of k f acc] show ?case
    by (auto simp: p split: if_splits)
qed

lemma filter_loop_length:
  "filter_loop a w fl wl acc = Inr r \<Longrightarrow> length r \<le> length acc + length wl"
proof (induction wl arbitrary: acc)
  case Nil
  then show ?case by simp
next
  case (Cons p wl)
  obtain k f where p: "p = (k, f)" by (cases p)
  from Cons.prems obtain keep where
    loop: "filter_loop a w fl wl (if keep then dict_set k f acc else acc) = Inr r"
    by (auto simp: p split: sum.splits)
  from Cons.IH [OF loop] length_dict_set [of k f acc] show ?case
    by (auto split: if_splits)
qed

lemma filter_loop_distinct:
  "filter_loop a w fl wl acc = Inr r \<Longrightarrow> distinct (map fst acc) \<Longrightarrow> distinct (map fst r)"
proof (induction wl arbitrary: acc)
  case Nil
  then show ?case by simp
next
  case (Cons p wl)
  obtain k f where p: "p = (k, f)" by (cases p)
  from Cons.prems obtain keep where
    loop: "filter_loop a w fl wl (if keep then dict_set k f acc else acc) = Inr r"
    by (auto simp: p split: sum.splits)
  have "distinct (map fst (if keep then dict_set k f acc else acc))"
    using Cons.prems(2) by (simp add: distinct_dict_set)
  with Cons.IH [OF loop] show ?case .
qed

lemma filter_loop_kept:
  "filter_loop a w fl wl acc = Inr r \<Longrightarrow>
   \<forall>(k, f) \<in> set acc. add_game a w fl k f = Inr True \<Longrightarrow>
   \<forall>(k, f) \<in> set r. add_game a w fl k f = Inr True"
proof (induction wl arbitrary: acc)
  case Nil
  then show ?case by simp
next
  case (Cons p wl)
  obtain k f where p: "p = (k, f)" by (cases p)
  from Cons.prems obtain keep where
    keep: "add_game a w fl k f = Inr keep" and
    loop: "filter_loop a w fl wl (if keep then dict_set k f acc else acc) = Inr r"
    by (auto simp: p split: sum.splits)
  have "\<forall>(k, f) \<in> set (if keep then dict_set k f acc else acc). add_game a w fl k f = Inr True"
    using Cons.prems(2) keep set_dict_set [of k f acc] by auto
  with Cons.IH [OF loop] show ?case .
qed

lemma filter_loop_keeps_all:
  "distinct (map fst xs) \<Longrightarrow> fst ` set acc \<inter> fst ` set xs = {} \<Longrightarrow>
   \<forall>(k, f) \<in> set xs. add_game a w fl k f = Inr True \<Longrightarrow>
   filter_loop a w fl xs acc = Inr (acc @ xs)"
proof (induction xs arbitrary: acc)
  case Nil
  then show ?case by simp
next
  case (Cons p xs)
  obtain k f where p: "p = (k, f)" by (cases p)
  have fresh: "k \<notin> fst ` set acc"
    using Cons.prems(2) by (auto simp: p)
  have keep: "add_game a w fl k f = Inr True"
    using Cons.prems(3) by (simp add: p)
  have "filter_loop a w fl xs (acc @ [(k, f)]) = Inr ((acc @ [(k, f)]) @ xs)"
  proof (rule Cons.IH)
    show "distinct (map fst xs)" using Cons.prems(1) by simp
    show "fst ` set (acc @ [(k, f)]) \<inter> fst ` set xs = {}"
      using Cons.prems(1,2) by (auto simp: p)
    show "\<forall>(k, f) \<in> set xs. add_game a w fl k f = Inr True"
      using Cons.prems(3) by simp
  qed
  then show ?case
    by (simp add: p keep dict_set_fresh [OF fresh])
qed

text \<open>An entry whose tests raise stops the loop: the first such entry decides the error.\<close>

lemma filter_loop_raises:
  "\<forall>(k, f) \<in> set before. \<exists>keep. add_game a w fl k f = Inr keep \<Longrightarrow>
   add_game a w fl gameid fields' = Inl e \<Longrightarrow>
   filter_loop a w fl (before @ (gameid, fields') # after) acc = Inl e"
proof (induction before arbitrary: acc)
  case Nil
  then show ?case by simp
next
  case (Cons p before)
  obtain k f where p: "p = (k, f)" by (cases p)
  from Cons.prems(1) obtain keep where "add_game a w fl k f = Inr keep"
    by (auto simp: p)
  then show ?case
    using Cons.IH Cons.prems by (simp add: p)
qed

lemma filter_loop_fails:
  "(gameid, fields') \<in> set wl \<Longrightarrow> add_game a w fl gameid fields' = Inl e \<Longrightarrow>
   \<exists>e'. filter_loop a w fl wl acc = Inl e'"
proof (induction wl arbitrary: acc)
  case Nil
  then show ?case by simp
next
  case (Cons p wl)
  obtain k f where p: "p = (k, f)" by (cases p)
  show ?case
  proof (cases "add_game a w fl k f")
    case (Inl e')
    then show ?thesis by (simp add: p)
  next
    case (Inr keep)
    with Cons.prems have "(gameid, fields') \<in> set wl"
      by (auto simp: p)
    from Cons.IH [OF this Cons.prems(2)] Inr show ?thesis
      by (simp add: p)
  qed
qed

text \<open>
  Claim C6. Whenever filtering a wishlist succeeds, filtering its result again, with the same
  flags, the same thresholds and the same curated lists, succeeds and returns that result
  unchanged.
\<close>

theorem filter_idempotent:
  assumes "filter_wishlist a w fl wishlist = Inr filtered"
  shows "filter_wishlist a w fl filtered = Inr filtered"
proof -
  from assms have loop: "filter_loop a w fl wishlist [] = Inr filtered"
    by (simp add: filter_wishlist_def)
  have "distinct (map fst filtered)"
    using filter_loop_distinct [OF loop] by simp
  moreover have "\<forall>(k, f) \<in> set filtered. add_game a w fl k f = Inr True"
    using filter_loop_kept [OF loop] by simp
  ultimately have "filter_loop a w fl filtered [] = Inr ([] @ filtered)"
    by (intro filter_loop_keeps_all) simp_all
  then show ?thesis
    by (simp add: filter_wishlist_def)
qed

text \<open>The theorem on the two-entry scenario with \<^verbatim>\<open>--type game --price 1500\<close>.\<close>

theorem filter_idempotent_witness:
  "filter_wishlist scenario_args scenario_wanted [] scenario_wishlist =
     Inr [(''10'', JObj [(''type'', JStr ''game''), (''is_free_game'', JBool False),
                         (''final'', JInt 999)])]
 \<and> filter_wishlist scenario_args scenario_wanted []
     [(''10'', JObj [(''type'', JStr ''game''), (''is_free_game'', JBool False),
                     (''final'', JInt 999)])] =
     Inr [(''10'', JObj [(''type'', JStr ''game''), (''is_free_game'', JBool False),
                         (''final'', JInt 999)])]"
proof -
  have first: "filter_wishlist scenario_args scenario_wanted [] scenario_wishlist =
     Inr [(''10'', JObj [(''type'', JStr ''game''), (''is_free_game'', JBool False),
                         (''final'', JInt 999)])]"
    by code_simp
  from first filter_idempotent [OF first] show ?thesis ..
qed

text \<open>
  Claim C8. When filtering succeeds on a wishlist (a dict, so no key twice), every key of
  the result is a key of the input, the result maps it to the very entry the input maps it
  to, and the result has at most as many entries as the input.
\<close>

theorem filter_submapping:
  assumes "filter_wishlist a w fl wishlist = Inr filtered"
      and "distinct (map fst wishlist)"
  shows "fst ` set filtered \<subseteq> fst ` set wishlist
       \<and> map_of filtered \<subseteq>\<^sub>m map_of wishlist
       \<and> length filtered \<le> length wishlist"
proof -
  from assms have loop: "filter_loop a w fl wishlist [] = Inr filtered"
    by (simp add: filter_wishlist_def)
  have sub: "set filtered \<subseteq> set wishlist"
    using filter_loop_subset [OF loop] by simp
  have "map_of filtered k = map_of wishlist k" if "k \<in> dom (map_of filtered)" for k
  proof -
    from that obtain v where v: "map_of filtered k = Some v" by auto
    then have "(k, v) \<in> set wishlist"
      using sub map_of_SomeD by fastforce
    then have "map_of wishlist k = Some v"
      using assms(2) by simp
    with v show ?thesis by simp
  qed
  then have "map_of filtered \<subseteq>\<^sub>m map_of wishlist"
    by (simp add: map_le_def)
  moreover have "length filtered \<le> length wishlist"
    using filter_loop_length [OF loop] by simp
  ultimately show ?thesis
    using sub by auto
qed

text \<open>The theorem on the scenario, with a curated list that holds both games.\<close>

theorem filter_submapping_witness:
  "filter_wishlist scenario_args scenario_wanted [{''10'', ''20''}] scenario_wishlist =
     Inr [(''10'', JObj [(''type'', JStr ''game''), (''is_free_game'', JBool False),
                         (''final'', JInt 999)])]
 \<and> distinct (map fst scenario_wishlist)
 \<and> fst ` set [(''10'', JObj [(''type'', JStr ''game''), (''is_free_game'', JBool False),
                              (''final'', JInt 999)])] \<subseteq> fst ` set scenario_wishlist
 \<and> map_of [(''10'', JObj [(''type'', JStr ''game''), (''is_free_game'', JBool False),
                           (''final'', JInt 999)])] \<subseteq>\<^sub>m map_of scenario_wishlist
 \<and> length [(''10'', JObj [(''type'', JStr ''game''), (''is_free_game'', JBool False),
                           (''final'', JInt 999)])] \<le> length scenario_wishlist"
proof -
  have run: "filter_wishlist scenario_args scenario_wanted [{''10'', ''20''}] scenario_wishlist =
     Inr [(''10'', JObj [(''type'', JStr ''game''), (''is_free_game'', JBool False),
                         (''final'', JInt 999)])]"
    by code_simp
  have keys: "distinct (map fst scenario_wishlist)"
    by (simp add: scenario_wishlist_def)
  from run keys filter_submapping [OF run keys] show ?thesis
    by blast
qed

section \<open>The tag test\<close>









text \<open>
  Claim C4. With \<^verbatim>\<open>--tag\<close> given, an entry that passes the tests before the tag test and has
  no \<^verbatim>\<open>tags\<close> key makes its loop iteration raise \<^verbatim>\<open>KeyError('tags')\<close>. Filtering a wishlist
  that holds such an entry never succeeds, and the error is this \<^verbatim>\<open>KeyError\<close> whenever
  the entries before it are tested without an error of their own.
\<close>

theorem missing_tags_raises:
  assumes "given (tag a)"
      and "boolean_filters a (JObj kvs) = Inr True"
      and "''tags'' \<notin> fst ` set kvs"
  shows "add_game a w fl gameid (JObj kvs) = Inl (KeyError ''tags'')
       \<and> ((gameid, JObj kvs) \<in> set wishlist \<longrightarrow>
            (\<exists>e. filter_wishlist a w fl wishlist = Inl e))
       \<and> ((\<forall>(k, f) \<in> set before. \<exists>keep. add_game a w fl k f = Inr keep) \<longrightarrow>
            filter_wishlist a w fl (before @ (gameid, JObj kvs) # after) =
              Inl (KeyError ''tags''))"
proof -
  have "map_of kvs ''tags'' = None"
    using assms(3) by (simp add: map_of_eq_None_iff)
  then have raised: "add_game a w fl gameid (JObj kvs) = Inl (KeyError ''tags'')"
    using assms(1,2)
    by (simp add: add_game_def bind_result_def tag_filter_def subscript_def)
  show ?thesis
    using raised filter_loop_fails [OF _ raised, of wishlist "[]"]
      filter_loop_raises [OF _ raised, of before after "[]"]
    by (auto simp: filter_wishlist_def)
qed

text \<open>
  The theorem on the scenario with \<^verbatim>\<open>--tag rpg\<close> added and game 20 first: game 20 is
  dropped by the type test, game 10 passes it and has no tags.
\<close>

theorem missing_tags_raises_witness:
  "add_game (scenario_args\<lparr>tag := Some [''rpg'']\<rparr>) scenario_wanted [] ''10''
     (JObj [(''type'', JStr ''game''), (''is_free_game'', JBool False), (''final'', JInt 999)]) =
     Inl (KeyError ''tags'')
 \<and> (\<exists>e. filter_wishlist (scenario_args\<lparr>tag := Some [''rpg'']\<rparr>) scenario_wanted []
        scenario_wishlist = Inl e)
 \<and> filter_wishlist (scenario_args\<lparr>tag := Some [''rpg'']\<rparr>) scenario_wanted []
     ([(''20'', JObj [(''type'', JStr ''dlc''), (''is_free_game'', JBool True),
                      (''final'', JInt 0)])] @
      (''10'', JObj [(''type'', JStr ''game''), (''is_free_game'', JBool False),
                     (''final'', JInt 999)]) # []) = Inl (KeyError ''tags'')"
proof -
  have g: "given (tag (scenario_args\<lparr>tag := Some [''rpg'']\<rparr>))"
    by (simp add: given_def)
  have b: "boolean_filters (scenario_args\<lparr>tag := Some [''rpg'']\<rparr>)
      (JObj [(''type'', JStr ''game''), (''is_free_game'', JBool False), (''final'', JInt 999)]) =
      Inr True"
    by code_simp
  have t: "''tags'' \<notin> fst ` set [(''type'', JStr ''game''), (''is_free_game'', JBool False),
      (''final'', JInt 999)]"
    by simp
  have m: "(''10'', JObj [(''type'', JStr ''game''), (''is_free_game'', JBool False),
      (''final'', JInt 999)]) \<in> set scenario_wishlist"
    by (simp add: scenario_wishlist_def)
  have d: "add_game (scenario_args\<lparr>tag := Some [''rpg'']\<rparr>) scenario_wanted [] ''20''
      (JObj [(''type'', JStr ''dlc''), (''is_free_game'', JBool True), (''final'', JInt 0)]) =
      Inr False"
    by code_simp
  have pre: "\<forall>(k, f) \<in> set [(''20'', JObj [(''type'', JStr ''dlc''),
      (''is_free_game'', JBool True), (''final'', JInt 0)])].
      \<exists>keep. add_game (scenario_args\<lparr>tag := Some [''rpg'']\<rparr>) scenario_wanted [] k f = Inr keep"
    using d by auto
  from missing_tags_raises [OF g b t, of scenario_wanted "[]" "''10''" scenario_wishlist
      "[(''20'', JObj [(''type'', JStr ''dlc''), (''is_free_game'', JBool True),
                       (''final'', JInt 0)])]" "[]"] m pre
  show ?thesis
    by blast
qed

section \<open>The price guard\<close>

text \<open>
  Claim C9. With \<^verbatim>\<open>--prices\<close> and \<^verbatim>\<open>--load\<close> both given, the guard indexes the first entry
  of the loaded wishlist: on the empty wishlist it raises \<^verbatim>\<open>IndexError\<close> (with or without
  \<^verbatim>\<open>--refresh\<close>), and on a wishlist whose first entry is a dict it returns a truth value.
\<close>

theorem price_guard_empty:
  assumes "given (cc a)" and "given (load a)"
  shows "price_guard a [] = Inl IndexError
       \<and> (\<exists>fetch. price_guard a ((gameid, JObj kvs) # rest) = Inr fetch)
       \<and> price_guard (no_args\<lparr>load := Some ''wishlist.json'', cc := Some ''us''\<rparr>) [] =
           Inl IndexError"
proof (intro conjI)
  show "price_guard a [] = Inl IndexError"
    using assms by (simp add: price_guard_def)
  show "\<exists>fetch. price_guard a ((gameid, JObj kvs) # rest) = Inr fetch"
    using assms by (auto simp: price_guard_def py_in_def)
  show "price_guard (no_args\<lparr>load := Some ''wishlist.json'', cc := Some ''us''\<rparr>) [] =
      Inl IndexError"
    by (simp add: price_guard_def given_def)
qed

text \<open>The theorem at \<^verbatim>\<open>--load wishlist.json --prices us\<close>, and a loaded entry with prices.\<close>

theorem price_guard_empty_witness:
  "price_guard (no_args\<lparr>load := Some ''wishlist.json'', cc := Some ''us''\<rparr>) [] =
     Inl IndexError
 \<and> (\<exists>fetch. price_guard (no_args\<lparr>load := Some ''wishlist.json'', cc := Some ''us''\<rparr>)
       ((''10'', JObj [(''_price'', JStr ''fetched'')]) # []) = Inr fetch)"
proof -
  have c: "given (cc (no_args\<lparr>load := Some ''wishlist.json'', cc := Some ''us''\<rparr>))"
    by (simp add: given_def)
  have l: "given (load (no_args\<lparr>load := Some ''wishlist.json'', cc := Some ''us''\<rparr>))"
    by (simp add: given_def)
  from price_guard_empty [OF c l, of "''10''" "[(''_price'', JStr ''fetched'')]" "[]"]
  show ?thesis
    by blast
qed

section \<open>JSON output\<close>

lemma map_of_dict_set: "map_of (dict_set k v d) = (map_of d)(k \<mapsto> v)"
  by (induction d) (auto simp: fun_eq_iff)

lemma map_of_output_fields_loop:
  "distinct (map fst kvs) \<Longrightarrow>
   map_of (output_fields_loop wfields kvs acc) k =
     (if (\<not> given wfields \<or> k \<in> set (the wfields)) \<and> k \<in> fst ` set kvs
      then map_of kvs k else map_of acc k)"
proof (induction kvs arbitrary: acc)
  case Nil
  then show ?case by simp
next
  case (Cons p kvs)
  obtain n v where p: "p = (n, v)" by (cases p)
  from Cons.prems have d: "distinct (map fst kvs)" and fresh: "n \<notin> fst ` set kvs"
    by (auto simp: p)
  show ?case
    using fresh by (auto simp: p Cons.IH [OF d] map_of_dict_set)
qed

lemma output_entry_fields:
  assumes "distinct (map fst kvs)"
  shows "\<exists>out. output_entry wfields gameid (JObj kvs) = Inr (JObj out) \<and>
     (\<forall>k. map_of out k =
        (if given wfields \<and> ''link'' \<in> set (the wfields) \<and> k = ''link''
         then Some (JStr (store_link gameid))
         else if \<not> given wfields \<or> k \<in> set (the wfields) then map_of kvs k
         else None))"
proof -
  have "map_of kvs k = None" if "k \<notin> fst ` set kvs" for k
    using that by (simp add: map_of_eq_None_iff)
  then show ?thesis
    by (auto simp: output_entry_def Let_def map_of_dict_set
        map_of_output_fields_loop [OF assms])
qed

lemma output_loop_succeeds:
  "\<forall>(g, f) \<in> set wl. \<exists>kvs. f = JObj kvs \<Longrightarrow> \<exists>output. output_loop wfields wl acc = Inr output"
proof (induction wl arbitrary: acc)
  case Nil
  then show ?case by simp
next
  case (Cons p wl)
  obtain g f where p: "p = (g, f)" by (cases p)
  from Cons.prems obtain kvs where f: "f = JObj kvs"
    by (auto simp: p)
  have "\<exists>j. output_entry wfields g f = Inr j"
    by (simp add: f output_entry_def Let_def)
  then obtain j where j: "output_entry wfields g f = Inr j" ..
  from Cons.prems have "\<forall>(g, f) \<in> set wl. \<exists>kvs. f = JObj kvs"
    by simp
  from Cons.IH [OF this, of "dict_set g j acc"] show ?case
    by (simp add: p j)
qed

lemma output_loop_keys:
  "output_loop wfields wl acc = Inr output \<Longrightarrow> distinct (map fst wl) \<Longrightarrow>
   fst ` set acc \<inter> fst ` set wl = {} \<Longrightarrow> map fst output = map fst acc @ map fst wl"
proof (induction wl arbitrary: acc)
  case Nil
  then show ?case by simp
next
  case (Cons p wl)
  obtain g f where p: "p = (g, f)" by (cases p)
  from Cons.prems(1) obtain j where
    loop: "output_loop wfields wl (dict_set g j acc) = Inr output"
    by (auto simp: p split: sum.splits)
  have fresh: "g \<notin> fst ` set acc"
    using Cons.prems(3) by (auto simp: p)
  have "map fst output = map fst (dict_set g j acc) @ map fst wl"
  proof (rule Cons.IH [OF loop])
    show "distinct (map fst wl)" using Cons.prems(2) by simp
    show "fst ` set (dict_set g j acc) \<inter> fst ` set wl = {}"
      using Cons.prems(2,3) by (auto simp: p keys_dict_set)
  qed
  then show ?case
    by (simp add: p dict_set_fresh [OF fresh])
qed

lemma output_loop_other:
  "output_loop wfields wl acc = Inr output \<Longrightarrow> g \<notin> fst ` set wl \<Longrightarrow>
   map_of output g = map_of acc g"
proof (induction wl arbitrary: acc)
  case Nil
  then show ?case by simp
next
  case (Cons p wl)
  obtain g' f' where p: "p = (g', f')" by (cases p)
  from Cons.prems(1) obtain j where
    loop: "output_loop wfields wl (dict_set g' j acc) = Inr output"
    by (auto simp: p split: sum.splits)
  from Cons.prems(2) have "g \<notin> fst ` set wl" and "g \<noteq> g'"
    by (auto simp: p)
  with Cons.IH [OF loop] show ?case
    by (simp add: map_of_dict_set)
qed

lemma output_loop_lookup:
  "output_loop wfields wl acc = Inr output \<Longrightarrow> distinct (map fst wl) \<Longrightarrow>
   (g, f) \<in> set wl \<Longrightarrow> \<exists>j. output_entry wfields g f = Inr j \<and> map_of output g = Some j"
proof (induction wl arbitrary: acc)
  case Nil
  then show ?case by simp
next
  case (Cons p wl)
  obtain g' f' where p: "p = (g', f')" by (cases p)
  from Cons.prems(1) obtain j where
    j: "output_entry wfields g' f' = Inr j" and
    loop: "output_loop wfields wl (dict_set g' j acc) = Inr output"
    by (auto simp: p split: sum.splits)
  from Cons.prems(2) have d: "distinct (map fst wl)" and fresh: "g' \<notin> fst ` set wl"
    by (auto simp: p)
  show ?case
  proof (cases "(g, f) \<in> set wl")
    case True
    from Cons.IH [OF loop d True] show ?thesis .
  next
    case False
    with Cons.prems(3) have same: "g = g'" "f = f'"
      by (auto simp: p)
    have "map_of output g' = Some j"
      using output_loop_other [OF loop fresh] by (simp add: map_of_dict_set)
    with j same show ?thesis
      by simp
  qed
qed

text \<open>
  Claim C7. For a wishlist whose entries are dicts, the JSON branch builds one output entry
  per game, under the same keys. In the entry of a game, a field name is present exactly
  when it is a requested name that the game has (every name the game has, when no field is
  requested) and then carries the game's value; except that, when \<^verbatim>\<open>link\<close> is requested,
  \<^verbatim>\<open>link\<close> is always present and is the store address of the game. With
  \<^verbatim>\<open>--fields name,link\<close> the wishlist \<^verbatim>\<open>{"30": {"name": "Foo"}}\<close> gives
  \<^verbatim>\<open>{"30": {"name": "Foo", "link": "https://store.steampowered.com/app/30"}}\<close>.
\<close>

theorem json_output_fields:
  assumes "distinct (map fst wishlist)"
      and "\<forall>(g, f) \<in> set wishlist. \<exists>kvs. f = JObj kvs \<and> distinct (map fst kvs)"
  shows "(\<exists>output. json_output a wishlist = Inr output
           \<and> map fst output = map fst wishlist
           \<and> (\<forall>(g, f) \<in> set wishlist. \<exists>out. map_of output g = Some (JObj out) \<and>
                (\<forall>k. map_of out k =
                   (if given (wanted_fields a) \<and> ''link'' \<in> set (the (wanted_fields a))
                        \<and> k = ''link''
                    then Some (JStr (store_link g))
                    else if \<not> given (wanted_fields a) \<or> k \<in> set (the (wanted_fields a))
                    then (case f of JObj kvs \<Rightarrow> map_of kvs k | _ \<Rightarrow> None)
                    else None))))
       \<and> json_output (no_args\<lparr>fields_arg := Some ''name,link''\<rparr>)
            [(''30'', JObj [(''name'', JStr ''Foo'')])] =
          Inr [(''30'', JObj [(''name'', JStr ''Foo''),
                              (''link'', JStr ''https://store.steampowered.com/app/30'')])]"
proof
  have "\<forall>(g, f) \<in> set wishlist. \<exists>kvs. f = JObj kvs"
    using assms(2) by fastforce
  from output_loop_succeeds [OF this, of "wanted_fields a" "[]"]
  obtain result where run: "output_loop (wanted_fields a) wishlist [] = Inr result" ..
  have keys: "map fst result = map fst wishlist"
    using output_loop_keys [OF run assms(1)] by simp
  have entry: "\<exists>out. map_of result g = Some (JObj out) \<and>
      (\<forall>k. map_of out k =
         (if given (wanted_fields a) \<and> ''link'' \<in> set (the (wanted_fields a)) \<and> k = ''link''
          then Some (JStr (store_link g))
          else if \<not> given (wanted_fields a) \<or> k \<in> set (the (wanted_fields a))
          then (case f of JObj kvs \<Rightarrow> map_of kvs k | _ \<Rightarrow> None)
          else None))"
    if "(g, f) \<in> set wishlist" for g f
  proof -
    from that assms(2) obtain kvs where f: "f = JObj kvs" and d: "distinct (map fst kvs)"
      by fastforce
    from output_loop_lookup [OF run assms(1) that] obtain j where
      j: "output_entry (wanted_fields a) g f = Inr j" and look: "map_of result g = Some j"
      by blast
    from output_entry_fields [OF d, of "wanted_fields a" g] j f look show ?thesis
      by auto
  qed
  show "\<exists>output. json_output a wishlist = Inr output
           \<and> map fst output = map fst wishlist
           \<and> (\<forall>(g, f) \<in> set wishlist. \<exists>out. map_of output g = Some (JObj out) \<and>
                (\<forall>k. map_of out k =
                   (if given (wanted_fields a) \<and> ''link'' \<in> set (the (wanted_fields a))
                        \<and> k = ''link''
                    then Some (JStr (store_link g))
                    else if \<not> given (wanted_fields a) \<or> k \<in> set (the (wanted_fields a))
                    then (case f of JObj kvs \<Rightarrow> map_of kvs k | _ \<Rightarrow> None)
                    else None)))"
    using run keys entry unfolding json_output_def by blast
  show "json_output (no_args\<lparr>fields_arg := Some ''name,link''\<rparr>)
            [(''30'', JObj [(''name'', JStr ''Foo'')])] =
          Inr [(''30'', JObj [(''name'', JStr ''Foo''),
                              (''link'', JStr ''https://store.steampowered.com/app/30'')])]"
    by code_simp
qed
text \<open>
  The theorem on a wishlist of two games with \<^verbatim>\<open>--fields name,link\<close>: game 30 has a
  \<^verbatim>\<open>link\<close> field of its own and a field that is not requested.
\<close>

theorem json_output_fields_witness:
  "\<exists>output.
     json_output (no_args\<lparr>fields_arg := Some ''name,link''\<rparr>)
       [(''30'', JObj [(''name'', JStr ''Foo''), (''link'', JStr ''x''), (''added'', JInt 5)]),
        (''40'', JObj [(''name'', JStr ''Bar'')])] = Inr output
   \<and> map fst output = [''30'', ''40'']
   \<and> (\<exists>out. map_of output ''30'' = Some (JObj out)
          \<and> map_of out ''link'' = Some (JStr ''https://store.steampowered.com/app/30'')
          \<and> map_of out ''name'' = Some (JStr ''Foo'')
          \<and> map_of out ''added'' = None)"
proof -
  let ?a = "no_args\<lparr>fields_arg := Some ''name,link''\<rparr>"
  let ?e = "JObj [(''name'', JStr ''Foo''), (''link'', JStr ''x''), (''added'', JInt 5)]"
  let ?w = "[(''30'', ?e), (''40'', JObj [(''name'', JStr ''Bar'')])]"
  have keys: "distinct (map fst ?w)"
    by simp
  have dicts: "\<forall>(g, f) \<in> set ?w. \<exists>kvs. f = JObj kvs \<and> distinct (map fst kvs)"
    by simp
  have wanted: "wanted_fields ?a = Some [''name'', ''link'']"
    by code_simp
  have link: "store_link ''30'' = ''https://store.steampowered.com/app/30''"
    by (simp add: store_link_def)
  from json_output_fields [OF keys dicts, of ?a] obtain result where
    run: "json_output ?a ?w = Inr result" and
    names: "map fst result = map fst ?w" and
    entries: "\<forall>(g, f) \<in> set ?w. \<exists>out. map_of result g = Some (JObj out) \<and>
        (\<forall>k. map_of out k =
           (if given (wanted_fields ?a) \<and> ''link'' \<in> set (the (wanted_fields ?a)) \<and> k = ''link''
            then Some (JStr (store_link g))
            else if \<not> given (wanted_fields ?a) \<or> k \<in> set (the (wanted_fields ?a))
            then (case f of JObj kvs \<Rightarrow> map_of kvs k | _ \<Rightarrow> None)
            else None))"
    by blast
  from entries obtain out where
    out: "map_of result ''30'' = Some (JObj out)" and
    fields: "\<forall>k. map_of out k =
       (if given (wanted_fields ?a) \<and> ''link'' \<in> set (the (wanted_fields ?a)) \<and> k = ''link''
        then Some (JStr (store_link ''30''))
        else if \<not> given (wanted_fields ?a) \<or> k \<in> set (the (wanted_fields ?a))
        then (case ?e of JObj kvs \<Rightarrow> map_of kvs k | _ \<Rightarrow> None)
        else None)"
    by auto
  have "map_of out ''link'' = Some (JStr ''https://store.steampowered.com/app/30'')"
    using fields [rule_format, of "''link''"] by (simp add: wanted given_def link)
  moreover have "map_of out ''name'' = Some (JStr ''Foo'')"
    using fields [rule_format, of "''name''"] by (simp add: wanted given_def)
  moreover have "map_of out ''added'' = None"
    using fields [rule_format, of "''added''"] by (simp add: wanted given_def)
  ultimately show ?thesis
    using run names out by auto
qed

section \<open>Numeric sorting\<close>













lemma numeric_sort_unit_separator:
  "py_sorted (no_args\<lparr>num := True\<rparr>) [(''10'', JObj [(''added'', JStr (CHR 0x1F # ''5''))])] =
     Inl ValueError"
  by code_simp


section \<open>The fetch loop\<close>

text \<open>As long as the pages are non-empty objects the loop goes on, merging them.\<close>

lemma fetch_loop_pages:
  assumes "\<forall>i<p. \<exists>kvs. kvs \<noteq> [] \<and> urlopen (page_request a url (int i)) = Reply (JObj kvs)"
  shows "\<exists>s'. fetch_loop urlopen a url (- 1) [] s =
              fetch_loop urlopen a url (int p - 1) (merged_pages urlopen a url p) s'"
  using assms
proof (induction p)
  case 0
  then show ?case by auto
next
  case (Suc p)
  then obtain s' where
    before: "fetch_loop urlopen a url (- 1) [] s =
             fetch_loop urlopen a url (int p - 1) (merged_pages urlopen a url p) s'"
    by auto
  from Suc.prems obtain kvs where
    page: "kvs \<noteq> []" "urlopen (page_request a url (int p)) = Reply (JObj kvs)"
    by auto
  have "fetch_loop urlopen a url (int p - 1) (merged_pages urlopen a url p) s' =
        fetch_loop urlopen a url (int p) (merge_page kvs (merged_pages urlopen a url p))
          (progress a (''Fetching wishlist page '' @ str_int (int p + 1) @ [CHR 0x0A]) s')"
    by (subst fetch_loop.simps) (simp add: page)
  with before page show ?case
    by (auto intro!: exI)
qed

text \<open>
  Claim C1, as the code has it. Let pages 0 to \<open>p - 1\<close> be non-empty objects. If the request
  for page \<open>p\<close> fails with an HTTP error, the error is raised again and ends the run, for
  \<open>p = 0\<close> and for every later page alike. The loop ends with the wishlist merged from
  pages 0 to \<open>p - 1\<close> only when page \<open>p\<close> is answered by an empty object or by a value
  that is not an object.
\<close>

theorem fetch_http_error_is_fatal:
  assumes "\<forall>i<p. \<exists>kvs. kvs \<noteq> [] \<and> urlopen (page_request a url (int i)) = Reply (JObj kvs)"
  shows "(urlopen (page_request a url (int p)) = HTTPFailure code \<longrightarrow>
            (\<exists>s'. fetch_loop urlopen a url (- 1) [] s = Some (s', Inl (HTTPError code))))
       \<and> ((\<exists>j. urlopen (page_request a url (int p)) = Reply j \<and> (\<forall>kvs. j = JObj kvs \<longrightarrow> kvs = []))
            \<longrightarrow> (\<exists>s'. fetch_loop urlopen a url (- 1) [] s =
                   Some (s', Inr (merged_pages urlopen a url p))))"
proof -
  from fetch_loop_pages [OF assms, of s] obtain s' where
    before: "fetch_loop urlopen a url (- 1) [] s =
             fetch_loop urlopen a url (int p - 1) (merged_pages urlopen a url p) s'"
    by blast
  have failure: "\<exists>s''. fetch_loop urlopen a url (int p - 1) (merged_pages urlopen a url p) s' =
      Some (s'', Inl (HTTPError code))"
    if "urlopen (page_request a url (int p)) = HTTPFailure code"
    by (subst fetch_loop.simps) (simp add: that)
  have ending: "\<exists>s''. fetch_loop urlopen a url (int p - 1) (merged_pages urlopen a url p) s' =
      Some (s'', Inr (merged_pages urlopen a url p))"
    if "urlopen (page_request a url (int p)) = Reply j" and "\<forall>kvs. j = JObj kvs \<longrightarrow> kvs = []" for j
    using that(2) by (subst fetch_loop.simps) (cases j; simp add: that(1))
  from before failure ending show ?thesis
    by auto
qed

text \<open>
  The theorem with \<open>p = 1\<close>: a store whose second page fails with status 429, and a store
  whose second page is the empty object.
\<close>

theorem fetch_http_error_is_fatal_witness:
  "(\<exists>s'. fetch_loop (example_store (HTTPFailure 429)) example_args (wishlist_url example_args)
           (- 1) [] no_output = Some (s', Inl (HTTPError 429)))
 \<and> (\<exists>s'. fetch_loop (example_store (Reply (JObj []))) example_args (wishlist_url example_args)
           (- 1) [] no_output =
         Some (s', Inr (merged_pages (example_store (Reply (JObj []))) example_args
                          (wishlist_url example_args) 1)))"
proof -
  have url0: "req_url (page_request example_args (wishlist_url example_args) 0) =
      ''https://store.steampowered.com/wishlist/profiles/76561198000000000/wishlistdata/?p=0''"
    by code_simp
  have url1: "req_url (page_request example_args (wishlist_url example_args) 1) \<noteq>
      ''https://store.steampowered.com/wishlist/profiles/76561198000000000/wishlistdata/?p=0''"
    by code_simp
  have first: "\<forall>i<1. \<exists>kvs. kvs \<noteq> [] \<and>
      example_store later (page_request example_args (wishlist_url example_args) (int i)) =
        Reply (JObj kvs)" for later
    by (simp add: example_store_def url0)
  have second: "example_store later (page_request example_args (wishlist_url example_args) (int 1)) =
      later" for later
    by (simp add: example_store_def url1)
  from fetch_http_error_is_fatal [OF first, of "HTTPFailure 429" 429 no_output]
       fetch_http_error_is_fatal [OF first, of "Reply (JObj [])" 429 no_output]
       second [of "HTTPFailure 429"] second [of "Reply (JObj [])"]
  show ?thesis
    by auto
qed

text \<open>
  The claim as the specification words it makes a failure after the first page a normal end
  of the pages. It is not: when page 0 holds a game and page 1 fails with status 429, the
  run ends with that error and no wishlist, after the two progress lines and the hint.
\<close>

theorem fetch_later_page_failure_counterexample:
  "fetch_loop (example_store (HTTPFailure 429)) example_args (wishlist_url example_args)
     (- 1) [] no_output =
   Some (\<lparr>stdout = [],
          stderr = ''Fetching wishlist page 1'' @ [CHR 0x0A] @
                   ''Fetching wishlist page 2'' @ [CHR 0x0A] @
                   ''Could not get wishlist. Is the wishlist private?'' @ [CHR 0x0A, CHR 0x0A]\<rparr>,
         Inl (HTTPError 429))"
proof -
  have page0: "example_store (HTTPFailure 429)
      (page_request example_args (wishlist_url example_args) 0) =
      Reply (JObj [(''10'', JObj [(''name'', JStr ''Foo'')])])"
    by code_simp
  have page1: "example_store (HTTPFailure 429)
      (page_request example_args (wishlist_url example_args) 1) = HTTPFailure 429"
    by code_simp
  have one: "str_int 1 = ''1''"
    by code_simp
  have two: "str_int 2 = ''2''"
    by code_simp
  have loud: "\<not> quiet example_args"
    by code_simp
  have no_cookie: "\<not> given (cookie example_args)"
    by code_simp
  have "fetch_loop (example_store (HTTPFailure 429)) example_args (wishlist_url example_args)
      (- 1) [] no_output =
    fetch_loop (example_store (HTTPFailure 429)) example_args (wishlist_url example_args) 0
      (merge_page [(''10'', JObj [(''name'', JStr ''Foo'')])] [])
      \<lparr>stdout = [], stderr = ''Fetching wishlist page 1'' @ [CHR 0x0A]\<rparr>"
    by (subst fetch_loop.simps) (simp add: page0 one loud progress_def pe_def no_output_def)
  also have "\<dots> = Some (\<lparr>stdout = [],
          stderr = ''Fetching wishlist page 1'' @ [CHR 0x0A] @
                   ''Fetching wishlist page 2'' @ [CHR 0x0A] @
                   ''Could not get wishlist. Is the wishlist private?'' @ [CHR 0x0A, CHR 0x0A]\<rparr>,
         Inl (HTTPError 429))"
    by (subst fetch_loop.simps) (simp add: page1 two loud no_cookie progress_def pe_def)
  finally show ?thesis .
qed

section \<open>Saving and loading a snapshot\<close>

lemma hexval_digit:
  assumes "k < 16"
  shows "hexval (''0123456789abcdef'' ! k) = Some k"
proof -
  from assms have "k = 0 \<or> k = 1 \<or> k = 2 \<or> k = 3 \<or> k = 4 \<or> k = 5 \<or> k = 6 \<or> k = 7 \<or> k = 8
      \<or> k = 9 \<or> k = 10 \<or> k = 11 \<or> k = 12 \<or> k = 13 \<or> k = 14 \<or> k = 15"
    by arith
  then show ?thesis
    by (auto simp: hexval_def)
qed

lemma unicode_escape_hex4:
  assumes "hex4 n = [h1, h2, h3, h4]" and "n < 256"
  shows "unicode_escape h1 h2 h3 h4 = Some (char_of n)"
proof -
  have a: "n div 4096 = 0" and b: "n div 256 mod 16 = 0" and c: "n div 16 mod 16 = n div 16"
    using assms(2) by auto
  have d: "n div 16 < 16" and e: "n mod 16 < 16"
    using assms(2) by auto
  have z: "hexval (CHR ''0'') = Some 0"
    by (simp add: hexval_def)
  have "hex4 n = [CHR ''0'', CHR ''0'', ''0123456789abcdef'' ! (n div 16),
      ''0123456789abcdef'' ! (n mod 16)]"
    by (simp add: hex4_def a b c)
  with assms(1) have "h1 = CHR ''0''" "h2 = CHR ''0''"
    "h3 = ''0123456789abcdef'' ! (n div 16)" "h4 = ''0123456789abcdef'' ! (n mod 16)"
    by auto
  then show ?thesis
    using assms(2)
    by (simp add: unicode_escape_def z hexval_digit [OF d] hexval_digit [OF e])
qed

lemma scanstring_escape_char:
  "scanstring (escape_char c @ rest) = map_option (\<lambda>(s, r). (c # s, r)) (scanstring rest)"
proof -
  have u: "scanstring ([CHR 0x5C, CHR ''u''] @ hex4 (of_char c) @ rest) =
      map_option (\<lambda>(s, r). (c # s, r)) (scanstring rest)"
  proof -
    have n: "(of_char c :: nat) < 256"
      by simp
    obtain h1 h2 h3 h4 where h: "hex4 (of_char c) = [h1, h2, h3, h4]"
      by (simp add: hex4_def)
    show ?thesis
      by (simp add: h unicode_escape_hex4 [OF h n])
  qed
  show ?thesis
    using u by (auto simp: escape_char_def unescape_def)
qed

lemma scanstring_escaped:
  "scanstring (concat (map escape_char s) @ CHR 0x22 # rest) = Some (s, rest)"
  by (induction s) (simp_all add: scanstring_escape_char)

lemma scan_dumps_str:
  "dumps_str s @ rest = CHR 0x22 # concat (map escape_char s) @ CHR 0x22 # rest"
  by (simp add: dumps_str_def)
lemma decimal_digit:
  assumes "k < 10"
  shows "isdecimal (''0123456789'' ! k)" and "digit_val (''0123456789'' ! k) = k"
    and "''0123456789'' ! k = CHR ''0'' \<longleftrightarrow> k = 0"
proof -
  from assms have k: "k = 0 \<or> k = 1 \<or> k = 2 \<or> k = 3 \<or> k = 4 \<or> k = 5 \<or> k = 6 \<or> k = 7
      \<or> k = 8 \<or> k = 9"
    by arith
  from k show "isdecimal (''0123456789'' ! k)"
    by (auto simp: isdecimal_def)
  from k show "digit_val (''0123456789'' ! k) = k"
    by (auto simp: digit_val_def)
  from k show "''0123456789'' ! k = CHR ''0'' \<longleftrightarrow> k = 0"
    by auto
qed

lemma str_nat_digits: "list_all isdecimal (str_nat n)"
proof (induction n rule: str_nat.induct)
  case (1 n)
  show ?case
    using "1.IH" by (subst str_nat.simps) (simp add: decimal_digit(1))
qed

lemma digits_value_snoc:
  "digits_value (ds @ [d]) = digits_value ds * 10 + int (digit_val d)"
  by (simp add: digits_value_def)

lemma str_nat_value: "digits_value (str_nat n) = int n"
proof (induction n rule: str_nat.induct)
  case (1 n)
  show ?case
  proof (cases "n < 10")
    case True
    then show ?thesis
      by (subst str_nat.simps) (simp add: digits_value_def decimal_digit(2))
  next
    case False
    have "n mod 10 < 10"
      by simp
    moreover have "int (n div 10) * 10 + int (n mod 10) = int n"
      by presburger
    ultimately show ?thesis
      using False "1.IH"
      by (subst str_nat.simps) (simp add: digits_value_snoc decimal_digit(2))
  qed
qed

lemma str_nat_head:
  "\<exists>c cs. str_nat n = c # cs \<and> isdecimal c \<and> (c = CHR ''0'' \<longrightarrow> n = 0 \<and> cs = [])"
proof (induction n rule: str_nat.induct)
  case (1 n)
  show ?case
  proof (cases "n < 10")
    case True
    then show ?thesis
      by (subst str_nat.simps) (simp add: decimal_digit)
  next
    case False
    with "1.IH" obtain c cs where
      h: "str_nat (n div 10) = c # cs" "isdecimal c" "c = CHR ''0'' \<longrightarrow> n div 10 = 0 \<and> cs = []"
      by blast
    from False have "n div 10 \<noteq> 0"
      by simp
    with h have "c \<noteq> CHR ''0''"
      by blast
    with h False show ?thesis
      by (subst str_nat.simps) simp
  qed
qed

lemma after_value_no_digit:
  assumes "after_value r"
  shows "takeWhile isdecimal (ds @ r) = takeWhile isdecimal ds"
    and "list_all isdecimal ds \<Longrightarrow> dropWhile isdecimal (ds @ r) = r"
    and "no_fraction r"
proof -
  have r: "r = [] \<or> (\<exists>c cs. r = c # cs \<and> \<not> isdecimal c \<and> c \<notin> set ''.eE'')"
    using assms by (cases r) (auto simp: after_value_def isdecimal_def)
  from r show "takeWhile isdecimal (ds @ r) = takeWhile isdecimal ds"
    by (induction ds) auto
  from r show "dropWhile isdecimal (ds @ r) = r" if "list_all isdecimal ds"
    using that by (induction ds) auto
  from r show "no_fraction r"
    by (auto simp: no_fraction_def)
qed

lemma scan_natural_str_nat:
  assumes "after_value r"
  shows "scan_natural (str_nat n @ r) = Some (int n, r)"
proof -
  from str_nat_head [of n] obtain c cs where
    h: "str_nat n = c # cs" "isdecimal c" "c = CHR ''0'' \<longrightarrow> n = 0 \<and> cs = []"
    by blast
  have ds: "list_all isdecimal cs"
    using str_nat_digits [of n] by (simp add: h)
  then have tw: "takeWhile isdecimal cs = cs"
    by (induction cs) auto
  show ?thesis
  proof (cases "c = CHR ''0''")
    case True
    with h show ?thesis
      by (simp add: scan_natural_def after_value_no_digit(3) [OF assms])
  next
    case False
    have "digits_value (c # cs) = int n"
      using str_nat_value [of n] by (simp add: h)
    with False h show ?thesis
      by (simp add: scan_natural_def after_value_no_digit [OF assms] ds tw)
  qed
qed

lemma scan_number_str_int:
  assumes "after_value r"
  shows "scan_number (str_int i @ r) = Some (i, r)"
proof (cases "i < 0")
  case True
  then show ?thesis
    by (simp add: str_int_def scan_number_def scan_natural_str_nat [OF assms])
next
  case False
  from str_nat_head [of "nat i"] obtain c cs where
    h: "str_nat (nat i) = c # cs" "isdecimal c"
    by blast
  then have "c \<noteq> CHR ''-''"
    by (auto simp: isdecimal_def)
  moreover have "scan_natural (c # cs @ r) = Some (i, r)"
    using scan_natural_str_nat [OF assms, of "nat i"] False by (simp add: h)
  ultimately show ?thesis
    using False by (simp add: str_int_def scan_number_def h)
qed

lemma str_int_head:
  "\<exists>c cs. str_int i = c # cs \<and> (c = CHR ''-'' \<or> isdecimal c)"
  using str_nat_head [of "nat i"] by (auto simp: str_int_def)
lemma digit_is_plain:
  "isdecimal c \<Longrightarrow> \<not> is_ws c \<and> c \<noteq> CHR '']'' \<and> c \<noteq> CHR ''}'' \<and> c \<noteq> CHR 0x22
     \<and> c \<noteq> CHR ''{'' \<and> c \<noteq> CHR ''['' \<and> c \<noteq> CHR ''n'' \<and> c \<noteq> CHR ''t'' \<and> c \<noteq> CHR ''f''"
  by (auto simp: isdecimal_def is_ws_def Let_def)

lemma join_Cons: "join sep (x # xs) = x @ (if xs = [] then [] else sep @ join sep xs)"
  by (cases xs) simp_all

lemma json_dumps_head:
  "\<exists>c cs. json_dumps v = c # cs \<and> \<not> is_ws c \<and> c \<noteq> CHR '']'' \<and> c \<noteq> CHR ''}''"
proof (cases v)
  case (JInt i)
  from str_int_head [of i] obtain c cs where
    "str_int i = c # cs" "c = CHR ''-'' \<or> isdecimal c"
    by blast
  then show ?thesis
    using digit_is_plain [of c] by (auto simp: JInt is_ws_def)
qed (simp_all add: is_ws_def dumps_str_def)

lemma skip_ws_json_dumps: "skip_ws (json_dumps v @ r) = json_dumps v @ r"
  using json_dumps_head [of v] by (auto simp: skip_ws_def)

lemma skip_ws_dumps_str: "skip_ws (dumps_str k @ r) = dumps_str k @ r"
  by (simp add: skip_ws_def dumps_str_def is_ws_def)

lemma skip_ws_elements:
  "xs \<noteq> [] \<Longrightarrow>
   skip_ws (join sep (map json_dumps xs) @ r) = join sep (map json_dumps xs) @ r"
  using skip_ws_json_dumps [of "hd xs"] by (cases xs) (simp_all add: join_Cons)

lemma skip_ws_members:
  "kvs \<noteq> [] \<Longrightarrow>
   skip_ws (join sep (map (\<lambda>kv. dumps_str (fst kv) @ '': '' @ json_dumps (snd kv)) kvs) @ r) =
     join sep (map (\<lambda>kv. dumps_str (fst kv) @ '': '' @ json_dumps (snd kv)) kvs) @ r"
  using skip_ws_dumps_str [of "fst (hd kvs)"] by (cases kvs) (simp_all add: join_Cons)

lemma skip_ws_plain: "\<not> is_ws c \<Longrightarrow> skip_ws (c # r) = c # r"
  by (simp add: skip_ws_def)

lemma skip_ws_space: "skip_ws (CHR '' '' # r) = skip_ws r"
  by (simp add: skip_ws_def is_ws_def)

lemma punctuation_plain:
  "\<not> is_ws (CHR '','')" "\<not> is_ws (CHR '']'')" "\<not> is_ws (CHR ''}'')" "\<not> is_ws (CHR '':'')"
  by (simp_all add: is_ws_def)

lemma scan_array_join:
  assumes "\<And>x fuel r. x \<in> set xs \<Longrightarrow> after_value r \<Longrightarrow> length (json_dumps x) \<le> fuel \<Longrightarrow>
             scan_once fuel (json_dumps x @ r) = Some (x, r)"
      and "xs \<noteq> []"
      and "length (join '', '' (map json_dumps xs)) < fuel"
  shows "scan_array fuel (join '', '' (map json_dumps xs) @ CHR '']'' # r) acc = Some (acc @ xs, r)"
  using assms
proof (induction xs arbitrary: fuel acc)
  case Nil
  then show ?case by simp
next
  case (Cons x xs)
  from Cons.prems(3) obtain f where fuel: "fuel = Suc f"
    by (cases fuel) auto
  show ?case
  proof (cases xs)
    case Nil
    have "scan_once f (json_dumps x @ CHR '']'' # r) = Some (x, CHR '']'' # r)"
      using Cons.prems(3) by (intro Cons.prems(1)) (simp_all add: Nil fuel after_value_def)
    then show ?thesis
      by (simp add: Nil fuel skip_ws_plain punctuation_plain)
  next
    case (Cons y ys)
    let ?more = "join '', '' (map json_dumps xs) @ CHR '']'' # r"
    have len: "length (json_dumps x) \<le> f" "length (join '', '' (map json_dumps xs)) < f"
      using Cons.prems(3) by (simp_all add: Cons fuel)
    have first: "scan_once f (json_dumps x @ CHR '','' # CHR '' '' # ?more) =
        Some (x, CHR '','' # CHR '' '' # ?more)"
      using len by (intro Cons.prems(1)) (simp_all add: after_value_def)
    have start: "skip_ws ?more = ?more"
      by (rule skip_ws_elements) (simp add: Cons)
    have rest: "scan_array f ?more (acc @ [x]) = Some ((acc @ [x]) @ xs, r)"
      using len by (intro Cons.IH Cons.prems(1)) (simp_all add: Cons)
    from first start rest show ?thesis
      by (simp add: Cons fuel skip_ws_plain punctuation_plain skip_ws_space)
  qed
qed

lemma scan_object_join:
  assumes "\<And>k v fuel r. (k, v) \<in> set kvs \<Longrightarrow> after_value r \<Longrightarrow> length (json_dumps v) \<le> fuel \<Longrightarrow>
             scan_once fuel (json_dumps v @ r) = Some (v, r)"
      and "kvs \<noteq> []"
      and "distinct (map fst (acc @ kvs))"
      and "length (join '', '' (map (\<lambda>kv. dumps_str (fst kv) @ '': '' @ json_dumps (snd kv)) kvs))
             < fuel"
  shows "scan_object fuel
           (join '', '' (map (\<lambda>kv. dumps_str (fst kv) @ '': '' @ json_dumps (snd kv)) kvs)
              @ CHR ''}'' # r) acc = Some (acc @ kvs, r)"
  using assms
proof (induction kvs arbitrary: fuel acc)
  case Nil
  then show ?case by simp
next
  case (Cons kv kvs)
  obtain k v where kv: "kv = (k, v)" by (cases kv)
  from Cons.prems(4) obtain f where fuel: "fuel = Suc f"
    by (cases fuel) auto
  have fresh: "dict_set k v acc = acc @ [(k, v)]"
    using Cons.prems(3) by (intro dict_set_fresh) (auto simp: kv)
  have key: "scanstring (concat (map escape_char k) @ CHR 0x22 # t) = Some (k, t)" for t
    by (rule scanstring_escaped)
  show ?case
  proof (cases kvs)
    case Nil
    have "length (json_dumps v) \<le> f"
      using Cons.prems(4) by (simp add: Nil fuel kv)
    then have "scan_once f (json_dumps v @ CHR ''}'' # r) = Some (v, CHR ''}'' # r)"
      by (intro Cons.prems(1) [of k]) (simp_all add: kv after_value_def)
    then show ?thesis
      by (simp add: Nil fuel kv dumps_str_def key fresh skip_ws_plain punctuation_plain
          skip_ws_space skip_ws_json_dumps)
  next
    case (Cons kv' kvs')
    let ?more = "join '', '' (map (\<lambda>kv. dumps_str (fst kv) @ '': '' @ json_dumps (snd kv)) kvs)
        @ CHR ''}'' # r"
    have len: "length (json_dumps v) \<le> f"
        "length (join '', '' (map (\<lambda>kv. dumps_str (fst kv) @ '': '' @ json_dumps (snd kv)) kvs)) < f"
      using Cons.prems(4) by (simp_all add: Cons fuel kv)
    have first: "scan_once f (json_dumps v @ CHR '','' # CHR '' '' # ?more) =
        Some (v, CHR '','' # CHR '' '' # ?more)"
      using len by (intro Cons.prems(1) [of k]) (simp_all add: kv after_value_def)
    have start: "skip_ws ?more = ?more"
      by (rule skip_ws_members) (simp add: Cons)
    have others: "scan_once g (json_dumps v' @ u) = Some (v', u)"
      if "(k', v') \<in> set kvs" "after_value u" "length (json_dumps v') \<le> g" for k' v' g u
      using Cons.prems(1) [of k' v' u g] that by simp
    have rest: "scan_object f ?more (acc @ [(k, v)]) = Some ((acc @ [(k, v)]) @ kvs, r)"
      using len Cons.prems(3) by (intro Cons.IH [OF others]) (simp_all add: Cons kv)
    from first start rest show ?thesis
      by (simp add: Cons fuel kv dumps_str_def key fresh skip_ws_plain punctuation_plain
          skip_ws_space skip_ws_json_dumps)
  qed
qed

lemma scan_once_json_dumps:
  "dict_ok v \<Longrightarrow> after_value r \<Longrightarrow> length (json_dumps v) \<le> fuel \<Longrightarrow>
   scan_once fuel (json_dumps v @ r) = Some (v, r)"
proof (induction v arbitrary: fuel r)
  case JNull
  then obtain f where "fuel = Suc f" by (cases fuel) auto
  then show ?case by simp
next
  case (JBool b)
  then obtain f where "fuel = Suc f" by (cases fuel; cases b) auto
  then show ?case by (cases b) simp_all
next
  case (JInt i)
  from str_int_head [of i] obtain c cs where
    h: "str_int i = c # cs" "c = CHR ''-'' \<or> isdecimal c"
    by blast
  with JInt.prems(3) obtain f where fuel: "fuel = Suc f"
    by (cases fuel) auto
  have number: "scan_number (c # cs @ r) = Some (i, r)"
    using scan_number_str_int [OF JInt.prems(2), of i] by (simp add: h)
  have plain: "c \<noteq> CHR 0x22" "c \<noteq> CHR ''{''" "c \<noteq> CHR ''[''"
      "c \<noteq> CHR ''n''" "c \<noteq> CHR ''t''" "c \<noteq> CHR ''f''"
    using h(2) digit_is_plain [of c] by auto
  have "scan_once (Suc f) (c # cs @ r) = Some (JInt i, r)"
    by (simp add: plain number)
  then show ?case
    by (simp add: fuel h(1))
next
  case (JStr s)
  then obtain f where "fuel = Suc f" by (cases fuel) (auto simp: dumps_str_def)
  then show ?case
    by (simp add: dumps_str_def scanstring_escaped)
next
  case (JList xs)
  then obtain f where fuel: "fuel = Suc f" by (cases fuel) auto
  show ?case
  proof (cases xs)
    case Nil
    then show ?thesis
      by (simp add: fuel skip_ws_plain punctuation_plain)
  next
    case (Cons y ys)
    let ?text = "join '', '' (map json_dumps xs) @ CHR '']'' # r"
    from json_dumps_head [of y] obtain c cs where
      head: "json_dumps y = c # cs" "\<not> is_ws c" "c \<noteq> CHR '']''"
      by blast
    then obtain t where shape: "?text = c # t"
      by (cases ys) (simp_all add: Cons)
    have elems: "scan_once g (json_dumps x @ u) = Some (x, u)"
      if "x \<in> set xs" "after_value u" "length (json_dumps x) \<le> g" for x g u
      using that JList.prems(1) by (intro JList.IH) (simp_all add: list_all_iff)
    have "scan_array f ?text [] = Some ([] @ xs, r)"
      using JList.prems(3) by (intro scan_array_join elems) (simp_all add: Cons fuel)
    then show ?thesis
      using head(2,3) by (simp add: fuel shape skip_ws_plain)
  qed
next
  case (JObj kvs)
  then obtain f where fuel: "fuel = Suc f" by (cases fuel) auto
  show ?case
  proof (cases kvs)
    case Nil
    then show ?thesis
      by (simp add: fuel skip_ws_plain punctuation_plain)
  next
    case (Cons kv kvs')
    let ?text = "join '', '' (map (\<lambda>kv. dumps_str (fst kv) @ '': '' @ json_dumps (snd kv)) kvs)
        @ CHR ''}'' # r"
    obtain t where shape: "?text = CHR 0x22 # t"
      by (cases kvs') (simp_all add: Cons dumps_str_def)
    have members: "scan_once g (json_dumps v @ u) = Some (v, u)"
      if "(k, v) \<in> set kvs" "after_value u" "length (json_dumps v) \<le> g" for k v g u
    proof (rule JObj.IH)
      show "(k, v) \<in> set kvs" by (rule that)
      show "v \<in> Basic_BNFs.snds (k, v)" by simp
      show "dict_ok v" using that(1) JObj.prems(1) by (auto simp: list_all_iff)
    qed (rule that)+
    have "scan_object f ?text [] = Some ([] @ kvs, r)"
      using JObj.prems(1,3) by (intro scan_object_join members) (simp_all add: Cons fuel)
    then have "scan_once (Suc f) (CHR ''{'' # ?text) = Some (JObj kvs, r)"
      unfolding shape by (simp add: skip_ws_plain is_ws_def)
    moreover have "json_dumps (JObj kvs) @ r = CHR ''{'' # ?text"
      by simp
    ultimately show ?thesis
      unfolding fuel by (simp only:)
  qed
qed

lemma json_loads_json_dumps:
  assumes "dict_ok v"
  shows "json_loads (json_dumps v) = Some v"
proof -
  have "scan_once (length (json_dumps v)) (json_dumps v @ []) = Some (v, [])"
    using assms by (intro scan_once_json_dumps) (simp_all add: after_value_def)
  then show ?thesis
    using skip_ws_json_dumps [of v "[]"] by (simp add: json_loads_def skip_ws_def)
qed
text \<open>
  Claim C5. A run with \<^verbatim>\<open>--save\<close> writes the wishlist to the file, and a run with \<^verbatim>\<open>--load\<close>
  on the same path reads back a wishlist equal to the one saved, whatever the file system
  held before. The wishlist is any Python value of JSON shape: a mapping from game ids to
  values built from dicts, lists, strings, integers, booleans and \<^verbatim>\<open>None\<close>.
\<close>

theorem save_then_load:
  assumes "given (save a)" and "load a' = save a" and "dict_ok (JObj wishlist)"
  shows "load_snapshot a' (save_snapshot a wishlist files) = Inr (JObj wishlist)"
  using assms(1,2) json_loads_json_dumps [OF assms(3)]
  by (simp add: load_snapshot_def save_snapshot_def)

text \<open>
  The theorem on the scenario's wishlist, saved to and loaded from \<^verbatim>\<open>wishlist.json\<close> on an
  empty file system.
\<close>

theorem save_then_load_witness:
  "load_snapshot (no_args\<lparr>load := Some ''wishlist.json''\<rparr>)
     (save_snapshot (no_args\<lparr>save := Some ''wishlist.json''\<rparr>) scenario_wishlist Map.empty) =
   Inr (JObj scenario_wishlist)"
proof (rule save_then_load)
  show "given (save (no_args\<lparr>save := Some ''wishlist.json''\<rparr>))"
    by (simp add: given_def)
  show "load (no_args\<lparr>load := Some ''wishlist.json''\<rparr>) =
      save (no_args\<lparr>save := Some ''wishlist.json''\<rparr>)"
    by simp
  show "dict_ok (JObj scenario_wishlist)"
    by (simp add: scenario_wishlist_def)
qed

end
